theory Spec2Isabelle
  imports Complex_Main
begin

section \<open>Python values used by the crawler\<close>

text \<open>
  The crawler of \<^verbatim>\<open>src/data_collection/data_collection.py\<close> is embedded function by
  function. Exceptions are values: a computation that can raise returns \<open>exn + 'a\<close>,
  with \<open>Inl\<close> the exception. Strings are lists of characters whose code points are below
  256; the whitespace and case rules below are Python's on that range.
\<close>

datatype exn =
  IndexError | KeyError | ValueError | OverflowError | OSError | WebDriverException

definition is_space :: "char \<Rightarrow> bool" where
  \<comment> \<open>\<^verbatim>\<open>str.isspace\<close> on one character\<close>
  "is_space c = (let n = (of_char c :: nat) in
     (9 \<le> n \<and> n \<le> 13) \<or> (28 \<le> n \<and> n \<le> 32) \<or> n = 133 \<or> n = 160)"

definition lower_char :: "char \<Rightarrow> char" where
  "lower_char c = (let n = (of_char c :: nat) in
     if (65 \<le> n \<and> n \<le> 90) \<or> (192 \<le> n \<and> n \<le> 222 \<and> n \<noteq> 215)
     then char_of (n + 32) else c)"

definition lower :: "string \<Rightarrow> string" where
  \<comment> \<open>\<^verbatim>\<open>s.lower()\<close>\<close>
  "lower s = map lower_char s"

definition strip :: "string \<Rightarrow> string" where
  \<comment> \<open>\<^verbatim>\<open>s.strip()\<close>\<close>
  "strip s = rev (dropWhile is_space (rev (dropWhile is_space s)))"

definition rstrip_chars :: "string \<Rightarrow> string \<Rightarrow> string" where
  \<comment> \<open>\<^verbatim>\<open>s.rstrip(chars)\<close>\<close>
  "rstrip_chars chars s = rev (dropWhile (\<lambda>c. c \<in> set chars) (rev s))"

definition startswith :: "string \<Rightarrow> string \<Rightarrow> bool" where
  \<comment> \<open>\<^verbatim>\<open>s.startswith(sub)\<close>\<close>
  "startswith s sub = (take (length sub) s = sub)"

fun contains :: "string \<Rightarrow> string \<Rightarrow> bool" where
  \<comment> \<open>\<^verbatim>\<open>sub in s\<close>\<close>
  "contains [] sub = (sub = [])"
| "contains (c # cs) sub = (startswith (c # cs) sub \<or> contains cs sub)"

fun split_acc :: "string \<Rightarrow> string \<Rightarrow> string list" where
  "split_acc cur [] = (if cur = [] then [] else [cur])"
| "split_acc cur (c # cs) =
     (if is_space c then (if cur = [] then split_acc [] cs else cur # split_acc [] cs)
      else split_acc (cur @ [c]) cs)"

definition split_ws :: "string \<Rightarrow> string list" where
  \<comment> \<open>\<^verbatim>\<open>s.split()\<close>: the maximal runs of non-whitespace\<close>
  "split_ws s = split_acc [] s"

fun replace_from :: "string \<Rightarrow> string \<Rightarrow> string \<Rightarrow> string" where
  "replace_from old new [] = []"
| "replace_from old new (c # cs) =
     (if startswith (c # cs) old
      then new @ replace_from old new (drop (length old - 1) cs)
      else c # replace_from old new cs)"

definition replace :: "string \<Rightarrow> string \<Rightarrow> string \<Rightarrow> string" where
  \<comment> \<open>\<^verbatim>\<open>s.replace(old, new)\<close>: every non-overlapping occurrence, from the left\<close>
  "replace s old new =
     (if old = [] then new @ concat (map (\<lambda>c. c # new) s) else replace_from old new s)"

fun before_first :: "string \<Rightarrow> string \<Rightarrow> string" where
  "before_first sep [] = []"
| "before_first sep (c # cs) =
     (if startswith (c # cs) sep then [] else c # before_first sep cs)"

definition split_head :: "string \<Rightarrow> string \<Rightarrow> string" where
  \<comment> \<open>\<^verbatim>\<open>s.split(sep)[0]\<close> for a non-empty separator: the text before its first occurrence\<close>
  "split_head s sep = before_first sep s"

definition join_lines :: "string list \<Rightarrow> string" where
  \<comment> \<open>\<^verbatim>\<open>"\n".join(xs)\<close>\<close>
  "join_lines xs = (case xs of [] \<Rightarrow> [] | y # ys \<Rightarrow> y @ concat (map (\<lambda>z. CHR 0x0A # z) ys))"

fun dict_set :: "'k \<Rightarrow> 'v \<Rightarrow> ('k \<times> 'v) list \<Rightarrow> ('k \<times> 'v) list" where
  \<comment> \<open>\<^verbatim>\<open>d[k] = v\<close> on an insertion-ordered dict: a known key keeps its place\<close>
  "dict_set k v [] = [(k, v)]"
| "dict_set k v (p # ps) = (if fst p = k then (k, v) # ps else p # dict_set k v ps)"

definition dict_update :: "('k \<times> 'v) list \<Rightarrow> ('k \<times> 'v) list \<Rightarrow> ('k \<times> 'v) list" where
  \<comment> \<open>\<^verbatim>\<open>d.update(e)\<close>\<close>
  "dict_update d e = foldl (\<lambda>acc kv. dict_set (fst kv) (snd kv) acc) d e"

section \<open>Rate governor\<close>

text \<open>
  \<^verbatim>\<open>DELAY_RANGE\<close> comes from the configuration file as two JSON numbers, and
  \<^verbatim>\<open>json.load\<close> accepts \<^verbatim>\<open>Infinity\<close> and \<^verbatim>\<open>NaN\<close> among them. A Python float is modelled
  by its value: a real number, one of the two infinities, or NaN. An operation whose
  exact result lies beyond the largest float gives an infinity; rounding, underflow
  and the sign of zero are not modelled. A JSON integer is a Python int: within the
  range of the floats it computes as the float of the same value, and an int beyond
  that range is outside this type.
\<close>

datatype pyfloat = Finite real | PosInf | NegInf | NaN

definition max_float :: real where
  \<comment> \<open>\<^verbatim>\<open>sys.float_info.max\<close>, the number \<open>2 ^ 1024 - 2 ^ 971\<close> written out\<close>
  "max_float = 179769313486231570814527423731704356798070567525844996598917476803157260780028538760589558632766878171540458953514382464234321326889464182768467546703537516986049910576551282076245490090389328944075868508455133942304583236903222948165808559332123348274797826204144723168738177180919299881250404026184124858368"

definition fl :: "real \<Rightarrow> pyfloat" where
  \<comment> \<open>the float of an exact result\<close>
  "fl x = (if max_float < x then PosInf else if x < - max_float then NegInf else Finite x)"

fun fneg :: "pyfloat \<Rightarrow> pyfloat" where
  "fneg (Finite x) = Finite (- x)"
| "fneg PosInf = NegInf"
| "fneg NegInf = PosInf"
| "fneg NaN = NaN"

fun fadd :: "pyfloat \<Rightarrow> pyfloat \<Rightarrow> pyfloat" where
  "fadd (Finite x) (Finite y) = fl (x + y)"
| "fadd (Finite x) PosInf = PosInf"
| "fadd (Finite x) NegInf = NegInf"
| "fadd PosInf (Finite y) = PosInf"
| "fadd PosInf PosInf = PosInf"
| "fadd PosInf NegInf = NaN"
| "fadd NegInf (Finite y) = NegInf"
| "fadd NegInf NegInf = NegInf"
| "fadd NegInf PosInf = NaN"
| "fadd NaN b = NaN"
| "fadd a NaN = NaN"

definition fsub :: "pyfloat \<Rightarrow> pyfloat \<Rightarrow> pyfloat" where
  "fsub a b = fadd a (fneg b)"

fun fscale :: "pyfloat \<Rightarrow> real \<Rightarrow> pyfloat" where
  \<comment> \<open>the product with a finite float\<close>
  "fscale (Finite x) r = fl (x * r)"
| "fscale PosInf r = (if r = 0 then NaN else if 0 < r then PosInf else NegInf)"
| "fscale NegInf r = (if r = 0 then NaN else if 0 < r then NegInf else PosInf)"
| "fscale NaN r = NaN"

definition uniform :: "pyfloat \<Rightarrow> pyfloat \<Rightarrow> real \<Rightarrow> pyfloat" where
  \<comment> \<open>\<^verbatim>\<open>random.uniform(a, b)\<close> is \<^verbatim>\<open>a + (b - a) * random()\<close>; \<open>r\<close> is the draw of \<^verbatim>\<open>random()\<close>\<close>
  "uniform a b r = fadd a (fscale (fsub b a) r)"

fun sleep :: "pyfloat \<Rightarrow> exn + real" where
  \<comment> \<open>\<^verbatim>\<open>time.sleep(x)\<close>: the length is first converted to a signed 64-bit count of
      nanoseconds, which raises ValueError for NaN and OverflowError out of range, and
      then refused with ValueError when negative; the value is the time slept\<close>
  "sleep NaN = Inl ValueError"
| "sleep PosInf = Inl OverflowError"
| "sleep NegInf = Inl OverflowError"
| "sleep (Finite x) =
     (if x * 10 ^ 9 < - (2 ^ 63) \<or> 2 ^ 63 \<le> x * 10 ^ 9 then Inl OverflowError
      else if x < 0 then Inl ValueError
      else Inr x)"

definition random_delay :: "pyfloat \<times> pyfloat \<Rightarrow> real \<Rightarrow> exn + real" where
  \<comment> \<open>\<^verbatim>\<open>time.sleep(random.uniform(*DELAY_RANGE))\<close>\<close>
  "random_delay DELAY_RANGE r = sleep (uniform (fst DELAY_RANGE) (snd DELAY_RANGE) r)"

section \<open>Field extractors\<close>

text \<open>
  The parsed page. Each selector the extractors use is a field: \<open>None\<close> when
  \<^verbatim>\<open>select_one\<close> finds no element, otherwise \<^verbatim>\<open>get_text(strip=True)\<close> of the first
  match (a Tag is truthy whatever it contains).
\<close>

record img =
  data_old_hires :: "string option"
  src_attr :: "string option"
  data_a_dynamic_image :: "string option"

record soup =
  productTitle :: "string option"
  a_price_whole :: "string option"
  a_price_fraction :: "string option"
  a_price_symbol :: "string option"
  a_icon_alt :: "string option"
  bylineInfo :: "string option"
  color_name :: "string option"
  product_facts :: "(string option \<times> string option) list"
  about_ul :: "string list option"
  landingImage :: "img option"
  s_no_outline :: "string option list"

definition extract_title :: "soup \<Rightarrow> string" where
  "extract_title s = (case productTitle s of Some t \<Rightarrow> t | None \<Rightarrow> ''N/A'')"

definition extract_price :: "soup \<Rightarrow> string option" where
  "extract_price s =
     (case (a_price_whole s, a_price_symbol s) of
        (Some whole_text, Some symbol_text) \<Rightarrow>
          (let fraction_text = (case a_price_fraction s of Some f \<Rightarrow> f | None \<Rightarrow> '''')
           in if fraction_text \<noteq> ''''
              then Some (whole_text @ fraction_text @ '' '' @ symbol_text)
              else Some (whole_text @ '' '' @ symbol_text))
      | _ \<Rightarrow> None)"

definition extract_rating :: "soup \<Rightarrow> exn + string" where
  \<comment> \<open>\<^verbatim>\<open>el.get_text(strip=True).split()[0] if el else "N/A"\<close>\<close>
  "extract_rating s =
     (case a_icon_alt s of
        Some t \<Rightarrow> (case split_ws t of [] \<Rightarrow> Inl IndexError | w # _ \<Rightarrow> Inr w)
      | None \<Rightarrow> Inr ''N/A'')"

definition extract_brand :: "soup \<Rightarrow> string" where
  "extract_brand s =
     (case bylineInfo s of
        Some t \<Rightarrow> strip (replace (replace (replace t ''Visit the'' '''') ''Store'' '''') ''Brand:'' '''')
      | None \<Rightarrow> ''N/A'')"

definition extract_color :: "soup \<Rightarrow> string" where
  "extract_color s = (case color_name s of Some t \<Rightarrow> t | None \<Rightarrow> ''N/A'')"

definition detail_key :: "string \<Rightarrow> string" where
  \<comment> \<open>\<^verbatim>\<open>label.rstrip(":").lower().replace(" ", "_").replace("-", "_")\<close>\<close>
  "detail_key label = replace (replace (lower (rstrip_chars '':'' label)) '' '' ''_'') ''-'' ''_''"

definition extract_product_details :: "soup \<Rightarrow> (string \<times> string) list" where
  "extract_product_details s =
     foldl (\<lambda>details row.
              case row of (Some label, Some v) \<Rightarrow> dict_set (detail_key label) v details
                        | _ \<Rightarrow> details)
       [] (product_facts s)"

definition extract_about_text :: "soup \<Rightarrow> string" where
  "extract_about_text s =
     (case about_ul s of None \<Rightarrow> '''' | Some bs \<Rightarrow> join_lines (filter (\<lambda>b. b \<noteq> '''') bs))"

definition truthy :: "string option \<Rightarrow> bool" where
  \<comment> \<open>Python truth of a value that is a string or None\<close>
  "truthy v = (case v of None \<Rightarrow> False | Some t \<Rightarrow> t \<noteq> '''')"

definition extract_image_url :: "(string \<Rightarrow> string option) \<Rightarrow> soup \<Rightarrow> string option" where
  \<comment> \<open>\<open>first_key\<close> is \<^verbatim>\<open>list(json.loads(x).keys())[0]\<close>, \<open>None\<close> where that raises\<close>
  "extract_image_url first_key s =
     (case landingImage s of
        None \<Rightarrow> None
      | Some i \<Rightarrow>
          (let url = (if truthy (data_old_hires i) then data_old_hires i else src_attr i)
           in if \<not> truthy url \<and> truthy (data_a_dynamic_image i)
              then (case first_key (the (data_a_dynamic_image i)) of Some k \<Rightarrow> Some k | None \<Rightarrow> url)
              else url))"

section \<open>Page Provider and crawl state\<close>

text \<open>
  The browser is an external collaborator: its state is a type parameter \<open>'d\<close> and the
  operations the crawler calls on it are the fields of an environment, next to the
  library functions the crawler uses (MD5, \<^verbatim>\<open>urljoin\<close>, the HTML parser, the JSON key
  lookup, the HTTP download) and the disk's willingness to open a path for writing.
  Theorems quantify over every environment; the evaluations use the static site defined
  further down. Reading the page source, the scripts and the lookups that the source
  does not guard are taken not to raise; navigation, the disk and the pacing can.
\<close>

datatype locator = ContinueExact | ContinueTolerant

datatype event =
    Get string | Refresh | Click locator | ClearStorage | DeleteCookies
  | Scroll | ExpandDetails | NextPage | Quit
  | RecoveryFailed | TextSaveFailed string | ImageFailed string | Saved string
  | UnhandledException exn

record 'd env =
  page_source :: "'d \<Rightarrow> string"
  nav_get :: "string \<Rightarrow> 'd \<Rightarrow> exn option \<times> 'd"
  nav_refresh :: "'d \<Rightarrow> exn option \<times> 'd"
  displayed :: "locator \<Rightarrow> 'd \<Rightarrow> bool"
  click_on :: "locator \<Rightarrow> 'd \<Rightarrow> 'd"
  clear_storage :: "'d \<Rightarrow> exn option \<times> 'd"
  delete_all_cookies :: "'d \<Rightarrow> exn option \<times> 'd"
  title_located :: "'d \<Rightarrow> bool"
  expander :: "'d \<Rightarrow> 'd"
  scroller :: "'d \<Rightarrow> 'd"
  next_button :: "'d \<Rightarrow> 'd option"
  get_driver :: "exn + 'd"
  md5_hexdigest :: "string \<Rightarrow> string"
  urljoin :: "string \<Rightarrow> string \<Rightarrow> string"
  BeautifulSoup :: "string \<Rightarrow> soup"
  json_first_key :: "string \<Rightarrow> string option"
  http_get :: "string \<Rightarrow> string option"
  writable :: "string \<Rightarrow> bool"

record config =
  BASE_DIR :: string
  IMAGES_DIR :: string
  TEXT_DIR :: string
  MAX_PER_CATEGORY :: int
  DELAY_RANGE :: "pyfloat \<times> pyfloat"
  BASE_SEARCH_URL :: string
  CATEGORIES :: "(string \<times> string) list"

text \<open>
  The state a crawl threads: the browser, the files on disk (a CSV file is its rows of
  cells, \<open>None\<close> when the file does not exist), the draws \<^verbatim>\<open>random.uniform\<close> will make
  for \<^verbatim>\<open>random_delay\<close>, and the trace of what was done, in order.
\<close>

record 'd world =
  driver :: 'd
  trace :: "event list"
  csv_files :: "string \<Rightarrow> string list list option"
  text_files :: "string \<Rightarrow> string option"
  image_files :: "string \<Rightarrow> string option"
  draws :: "real list"

definition emit :: "event \<Rightarrow> 'd world \<Rightarrow> 'd world" where
  "emit ev w = w\<lparr>trace := trace w @ [ev]\<rparr>"

definition generate_id :: "'d env \<Rightarrow> string \<Rightarrow> string" where
  \<comment> \<open>\<^verbatim>\<open>hashlib.md5(url.encode()).hexdigest()\<close>\<close>
  "generate_id E url = md5_hexdigest E url"

definition pace :: "config \<Rightarrow> 'd world \<Rightarrow> exn option \<times> 'd world" where
  \<comment> \<open>a call of \<^verbatim>\<open>random_delay()\<close> in the crawl: it takes the next draw\<close>
  "pace C w =
     (let r = (case draws w of [] \<Rightarrow> 0 | x # _ \<Rightarrow> x); w' = w\<lparr>draws := tl (draws w)\<rparr>
      in case random_delay (DELAY_RANGE C) r of Inl e \<Rightarrow> (Some e, w') | Inr _ \<Rightarrow> (None, w'))"

definition driver_get :: "'d env \<Rightarrow> string \<Rightarrow> 'd world \<Rightarrow> exn option \<times> 'd world" where
  \<comment> \<open>\<^verbatim>\<open>driver.get(url)\<close>\<close>
  "driver_get E url w =
     (case nav_get E url (driver w) of (r, d) \<Rightarrow> (r, emit (Get url) (w\<lparr>driver := d\<rparr>)))"

definition driver_refresh :: "'d env \<Rightarrow> 'd world \<Rightarrow> exn option \<times> 'd world" where
  "driver_refresh E w =
     (case nav_refresh E (driver w) of (r, d) \<Rightarrow> (r, emit Refresh (w\<lparr>driver := d\<rparr>)))"

definition click_continue_shopping_if_present :: "'d env \<Rightarrow> 'd world \<Rightarrow> bool \<times> 'd world" where
  \<comment> \<open>the exact XPath first, then the tolerant one; every exception inside is swallowed,
      so a lookup that raises counts as no button displayed, and a click has its scripted
      fallback\<close>
  "click_continue_shopping_if_present E w =
     (if displayed E ContinueExact (driver w)
      then (True, emit (Click ContinueExact) (w\<lparr>driver := click_on E ContinueExact (driver w)\<rparr>))
      else if displayed E ContinueTolerant (driver w)
      then (True, emit (Click ContinueTolerant) (w\<lparr>driver := click_on E ContinueTolerant (driver w)\<rparr>))
      else (False, w))"

definition scroll_randomly :: "'d env \<Rightarrow> 'd world \<Rightarrow> 'd world" where
  "scroll_randomly E w = emit Scroll (w\<lparr>driver := scroller E (driver w)\<rparr>)"

definition expand_details :: "'d env \<Rightarrow> 'd world \<Rightarrow> 'd world" where
  \<comment> \<open>every exception inside is swallowed\<close>
  "expand_details E w = emit ExpandDetails (w\<lparr>driver := expander E (driver w)\<rparr>)"

section \<open>Interstitial recovery\<close>

definition error_page :: "string \<Rightarrow> bool" where
  \<comment> \<open>the test at the top of each attempt, on the lower-cased page source\<close>
  "error_page src = (contains src ''error/500_503.png'' \<or>
     contains src ''sorry! something went wrong'' \<or> contains src ''we're sorry'')"

definition final_error_page :: "string \<Rightarrow> bool" where
  \<comment> \<open>the test after the loop\<close>
  "final_error_page src = (contains src ''error/500_503.png'' \<or>
     contains src ''sorry! something went wrong'')"

definition refresh_page :: "'d env \<Rightarrow> string option \<Rightarrow> 'd world \<Rightarrow> 'd world" where
  \<comment> \<open>\<^verbatim>\<open>driver.refresh()\<close>, and where it raises the fallback through the home page\<close>
  "refresh_page E product_url w =
     (case driver_refresh E w of
        (None, w1) \<Rightarrow> w1
      | (Some _, w1) \<Rightarrow>
          (case driver_get E ''https://www.amazon.com'' w1 of
             (Some _, w2) \<Rightarrow> w2
           | (None, w2) \<Rightarrow>
               (if truthy product_url then snd (driver_get E (the product_url) w2) else w2)))"

definition clear_session :: "'d env \<Rightarrow> 'd world \<Rightarrow> 'd world" where
  \<comment> \<open>step 4: storage, then cookies; an exception ends the step\<close>
  "clear_session E w =
     (case clear_storage E (driver w) of
        (Some _, d) \<Rightarrow> emit ClearStorage (w\<lparr>driver := d\<rparr>)
      | (None, d) \<Rightarrow>
          (let w1 = emit ClearStorage (w\<lparr>driver := d\<rparr>)
           in emit DeleteCookies (w1\<lparr>driver := snd (delete_all_cookies E (driver w1))\<rparr>)))"

definition recovery_cycle :: "'d env \<Rightarrow> string option \<Rightarrow> nat \<Rightarrow> 'd world \<Rightarrow> 'd world" where
  \<comment> \<open>the body of the loop after an error page was detected, steps 1 to 4; its waits
      (\<^verbatim>\<open>1.5 * attempt\<close> seconds and a draw, then two seconds at most) are not modelled:
      \<^verbatim>\<open>time.sleep\<close> accepts them up to attempt 6148914690\<close>
  "recovery_cycle E product_url attempt w =
     (let w1 = snd (click_continue_shopping_if_present E w);
          w2 = refresh_page E product_url w1;
          w3 = snd (click_continue_shopping_if_present E w2)
      in if attempt = 2 then clear_session E w3 else w3)"

fun sorry_loop :: "'d env \<Rightarrow> string option \<Rightarrow> nat \<Rightarrow> nat \<Rightarrow> 'd world \<Rightarrow> bool \<times> 'd world" where
  \<comment> \<open>\<^verbatim>\<open>for attempt in range(1, max_retries + 1)\<close> with \<open>n\<close> attempts left, then the final check\<close>
  "sorry_loop E product_url attempt 0 w =
     (if final_error_page (lower (page_source E (driver w)))
      then (False, emit RecoveryFailed w) else (True, w))"
| "sorry_loop E product_url attempt (Suc n) w =
     (if \<not> error_page (lower (page_source E (driver w))) then (True, w)
      else sorry_loop E product_url (Suc attempt) n (recovery_cycle E product_url attempt w))"

definition handle_sorry_page :: "'d env \<Rightarrow> string option \<Rightarrow> nat \<Rightarrow> 'd world \<Rightarrow> bool \<times> 'd world" where
  "handle_sorry_page E product_url max_retries w = sorry_loop E product_url 1 max_retries w"

section \<open>Output file\<close>

text \<open>
  The CSV file is kept as its rows of cells: the \<^verbatim>\<open>csv\<close> module's quoting is not
  modelled. \<^verbatim>\<open>csv.DictReader\<close> takes the first row as the field names, skips empty
  rows, gives a short row \<open>None\<close> for its missing fields and keeps the cells of a long
  row beyond the field names as a list under the key \<^verbatim>\<open>None\<close> (\<open>restkey\<close> here).
\<close>

definition path_join :: "string \<Rightarrow> string \<Rightarrow> string" where
  \<comment> \<open>\<^verbatim>\<open>os.path.join(a, b)\<close> on POSIX\<close>
  "path_join a b =
     (if startswith b ''/'' then b
      else if a = [] \<or> last a = CHR ''/'' then a @ b else a @ ''/'' @ b)"

record parsed_row =
  named :: "(string \<times> string option) list"
  restkey :: "string list option"

definition DictReader_row :: "string list \<Rightarrow> string list \<Rightarrow> parsed_row" where
  "DictReader_row fieldnames row =
     \<lparr>named = dict_update (dict_update [] (zip fieldnames (map Some row)))
                (map (\<lambda>k. (k, None)) (drop (length row) fieldnames)),
      restkey = (if length fieldnames < length row
                 then Some (drop (length fieldnames) row) else None)\<rparr>"

definition DictReader :: "string list list \<Rightarrow> parsed_row list" where
  "DictReader rows =
     (case rows of [] \<Rightarrow> []
      | fieldnames # body \<Rightarrow> map (DictReader_row fieldnames) (filter (\<lambda>r. r \<noteq> []) body))"

definition load_scraped_ids :: "string list list option \<Rightarrow> exn + string option set" where
  \<comment> \<open>\<^verbatim>\<open>{row["id"] for row in reader}\<close> when the file exists; a row without the key
      raises KeyError\<close>
  "load_scraped_ids f =
     (case f of
        None \<Rightarrow> Inr {}
      | Some rows \<Rightarrow>
          (case those (map (\<lambda>row. map_of (named row) ''id'') (DictReader rows)) of
             None \<Rightarrow> Inl KeyError
           | Some ids \<Rightarrow> Inr (set ids)))"

definition csv_row :: "(string \<times> string option) list \<Rightarrow> string list" where
  \<comment> \<open>\<^verbatim>\<open>writer.writerow(data)\<close> with \<^verbatim>\<open>fieldnames=data.keys()\<close>: the values in key order,
      \<open>None\<close> written as the empty cell\<close>
  "csv_row data = map (\<lambda>kv. case snd kv of None \<Rightarrow> '''' | Some t \<Rightarrow> t) data"

definition write_csv :: "string list list option \<Rightarrow> (string \<times> string option) list \<Rightarrow> string list list" where
  \<comment> \<open>the file after lines 401 to 406: a header only when the file did not exist\<close>
  "write_csv f data =
     (case f of None \<Rightarrow> [map fst data, csv_row data] | Some rows \<Rightarrow> rows @ [csv_row data])"

definition append_csv ::
  "'d env \<Rightarrow> string \<Rightarrow> (string \<times> string option) list \<Rightarrow> 'd world \<Rightarrow> exn option \<times> 'd world" where
  "append_csv E csv_file data w =
     (if \<not> writable E csv_file then (Some OSError, w)
      else (None, w\<lparr>csv_files := (csv_files w)(csv_file := Some (write_csv (csv_files w csv_file) data))\<rparr>))"

section \<open>The crawl of one category\<close>

definition build_data :: "string \<Rightarrow> string \<Rightarrow> soup \<Rightarrow> exn + (string \<times> string option) list" where
  \<comment> \<open>lines 374 to 383: the dict literal, then \<^verbatim>\<open>data.update(extract_product_details(soup))\<close>\<close>
  "build_data pid product_url s =
     (case extract_rating s of
        Inl e \<Rightarrow> Inl e
      | Inr rating \<Rightarrow>
          Inr (dict_update
                 [(''id'', Some pid), (''url'', Some product_url),
                  (''title'', Some (extract_title s)), (''price'', extract_price s),
                  (''rating'', Some rating), (''brand'', Some (extract_brand s)),
                  (''color'', Some (extract_color s))]
                 (map (\<lambda>kv. (fst kv, Some (snd kv))) (extract_product_details s))))"

definition save_about_text :: "'d env \<Rightarrow> config \<Rightarrow> string \<Rightarrow> string \<Rightarrow> 'd world \<Rightarrow> 'd world" where
  \<comment> \<open>lines 386 to 391: a failure is logged and the item goes on\<close>
  "save_about_text E C pid about w =
     (let path = path_join (TEXT_DIR C) (pid @ ''.txt'')
      in if writable E path then w\<lparr>text_files := (text_files w)(path \<mapsto> about)\<rparr>
         else emit (TextSaveFailed pid) w)"

definition download_image :: "'d env \<Rightarrow> string option \<Rightarrow> string \<Rightarrow> 'd world \<Rightarrow> bool \<times> 'd world" where
  "download_image E url path w =
     (case url of
        None \<Rightarrow> (False, w)
      | Some u \<Rightarrow>
          (if u = [] then (False, w)
           else (case http_get E u of
                   None \<Rightarrow> (False, w)
                 | Some content \<Rightarrow>
                     (if writable E path
                      then (True, w\<lparr>image_files := (image_files w)(path \<mapsto> content)\<rparr>)
                      else (False, w)))))"

definition save_image :: "'d env \<Rightarrow> config \<Rightarrow> string \<Rightarrow> soup \<Rightarrow> 'd world \<Rightarrow> 'd world" where
  \<comment> \<open>lines 394 to 398\<close>
  "save_image E C pid s w =
     (let img_url = extract_image_url (json_first_key E) s
      in if truthy img_url
         then (case download_image E img_url (path_join (IMAGES_DIR C) (pid @ ''.jpg'')) w of
                 (True, w1) \<Rightarrow> w1
               | (False, w1) \<Rightarrow> emit (ImageFailed pid) w1)
         else w)"

type_synonym 'd crawl = "'d world \<times> string option set \<times> int"

definition skip_item :: "config \<Rightarrow> 'd crawl \<Rightarrow> exn option \<times> 'd crawl" where
  \<comment> \<open>\<^verbatim>\<open>random_delay(); continue\<close>\<close>
  "skip_item C st =
     (case st of (w, scraped_ids, total_scraped) \<Rightarrow>
        (case pace C w of (r, w1) \<Rightarrow> (r, (w1, scraped_ids, total_scraped))))"

definition persist_item ::
  "'d env \<Rightarrow> config \<Rightarrow> string \<Rightarrow> string \<Rightarrow> string \<Rightarrow> 'd crawl \<Rightarrow> exn option \<times> 'd crawl" where
  \<comment> \<open>lines 370 to 411: extraction, the two side artifacts, the CSV row, the index\<close>
  "persist_item E C csv_file pid product_url st =
     (case st of (w, scraped_ids, total_scraped) \<Rightarrow>
        (let w1 = expand_details E w;
             s = BeautifulSoup E (page_source E (driver w1))
         in case build_data pid product_url s of
              Inl e \<Rightarrow> (Some e, (w1, scraped_ids, total_scraped))
            | Inr data \<Rightarrow>
                (let w2 = save_about_text E C pid (extract_about_text s) w1;
                     w3 = save_image E C pid s w2
                 in case append_csv E csv_file data w3 of
                      (Some e, w4) \<Rightarrow> (Some e, (w4, scraped_ids, total_scraped))
                    | (None, w4) \<Rightarrow>
                        (case pace C (emit (Saved pid) w4) of
                           (r, w5) \<Rightarrow> (r, (w5, insert (Some pid) scraped_ids, total_scraped + 1))))))"

definition product_url_of :: "'d env \<Rightarrow> string \<Rightarrow> string" where
  \<comment> \<open>\<^verbatim>\<open>urljoin("https://www.amazon.com", href.split("/ref")[0])\<close>\<close>
  "product_url_of E href = urljoin E ''https://www.amazon.com'' (split_head href ''/ref'')"

definition visit_item ::
  "'d env \<Rightarrow> config \<Rightarrow> string \<Rightarrow> string option \<Rightarrow> 'd crawl \<Rightarrow> exn option \<times> 'd crawl" where
  \<comment> \<open>lines 343 to 411, the body of the loop over the links after the cap test\<close>
  "visit_item E C csv_file href st =
     (case st of (w, scraped_ids, total_scraped) \<Rightarrow>
        (if \<not> truthy href then (None, st)
         else if \<not> contains (the href) ''/dp/'' then (None, st)
         else
           (let product_url = product_url_of E (the href);
                pid = generate_id E product_url
            in if Some pid \<in> scraped_ids then (None, st)
               else
                 (case driver_get E product_url w of
                    (Some e, w1) \<Rightarrow> (Some e, (w1, scraped_ids, total_scraped))
                  | (None, w1) \<Rightarrow>
                      (let w2 = snd (click_continue_shopping_if_present E w1)
                       in case handle_sorry_page E (Some product_url) 3 w2 of
                            (False, w3) \<Rightarrow> skip_item C (w3, scraped_ids, total_scraped)
                          | (True, w3) \<Rightarrow>
                              (if \<not> title_located E (driver w3)
                               then skip_item C (w3, scraped_ids, total_scraped)
                               else persist_item E C csv_file pid product_url
                                      (w3, scraped_ids, total_scraped)))))))"

fun visit_items ::
  "'d env \<Rightarrow> config \<Rightarrow> string \<Rightarrow> string option list \<Rightarrow> 'd crawl \<Rightarrow> exn option \<times> 'd crawl" where
  \<comment> \<open>\<^verbatim>\<open>for item in items\<close>: the cap test breaks the loop, an exception leaves it\<close>
  "visit_items E C csv_file [] st = (None, st)"
| "visit_items E C csv_file (href # rest) st =
     (if snd (snd st) \<ge> MAX_PER_CATEGORY C then (None, st)
      else (case visit_item E C csv_file href st of
              (Some e, st1) \<Rightarrow> (Some e, st1)
            | (None, st1) \<Rightarrow> visit_items E C csv_file rest st1))"

fun crawl_pages ::
  "nat \<Rightarrow> 'd env \<Rightarrow> config \<Rightarrow> string \<Rightarrow> 'd crawl \<Rightarrow> (exn option \<times> 'd crawl) option" where
  \<comment> \<open>the \<^verbatim>\<open>while\<close> loop over the listing pages; the fuel bounds the pages read, and
      \<open>None\<close> is a crawl that has not ended within it\<close>
  "crawl_pages 0 E C csv_file st =
     (if \<not> snd (snd st) < MAX_PER_CATEGORY C then Some (None, st) else None)"
| "crawl_pages (Suc fuel) E C csv_file st =
     (case st of (w, scraped_ids, total_scraped) \<Rightarrow>
        (if \<not> total_scraped < MAX_PER_CATEGORY C then Some (None, st)
         else
           (let w1 = scroll_randomly E w;
                items = s_no_outline (BeautifulSoup E (page_source E (driver w1)))
            in if items = [] then Some (None, (w1, scraped_ids, total_scraped))
               else (case visit_items E C csv_file items (w1, scraped_ids, total_scraped) of
                       (Some e, st1) \<Rightarrow> Some (Some e, st1)
                     | (None, (w2, ids2, total2)) \<Rightarrow>
                         (case next_button E (driver w2) of
                            None \<Rightarrow> Some (None, (w2, ids2, total2))
                          | Some d \<Rightarrow>
                              crawl_pages fuel E C csv_file
                                (emit NextPage (w2\<lparr>driver := d\<rparr>), ids2, total2))))))"

definition csv_path :: "config \<Rightarrow> string \<Rightarrow> string" where
  "csv_path C category_name = path_join (BASE_DIR C) (category_name @ ''_bronze.csv'')"

definition open_listing :: "'d env \<Rightarrow> config \<Rightarrow> string \<Rightarrow> 'd world \<Rightarrow> exn option \<times> 'd world" where
  \<comment> \<open>lines 306 to 316: the search page is loaded and recovered; a failed recovery is
      only a warning\<close>
  "open_listing E C node_id w =
     (case driver_get E (BASE_SEARCH_URL C @ node_id) w of
        (Some e, w1) \<Rightarrow> (Some e, w1)
      | (None, w1) \<Rightarrow>
          (None, snd (handle_sorry_page E None 2 (snd (click_continue_shopping_if_present E w1)))))"

definition scrape_category ::
  "nat \<Rightarrow> 'd env \<Rightarrow> config \<Rightarrow> string \<Rightarrow> string \<Rightarrow> 'd world \<Rightarrow> (exn option \<times> 'd world) option" where
  "scrape_category fuel E C category_name node_id w =
     (case open_listing E C node_id w of
        (Some e, w1) \<Rightarrow> Some (Some e, w1)
      | (None, w1) \<Rightarrow>
          (case load_scraped_ids (csv_files w1 (csv_path C category_name)) of
             Inl e \<Rightarrow> Some (Some e, w1)
           | Inr scraped_ids \<Rightarrow>
               map_option (\<lambda>r. (fst r, fst (snd r)))
                 (crawl_pages fuel E C (csv_path C category_name) (w1, scraped_ids, 0))))"

section \<open>The run\<close>

fun run_categories ::
  "nat \<Rightarrow> 'd env \<Rightarrow> config \<Rightarrow> (string \<times> string) list \<Rightarrow> 'd world \<Rightarrow> (exn option \<times> 'd world) option" where
  \<comment> \<open>\<^verbatim>\<open>for name, node in CATEGORIES.items()\<close>\<close>
  "run_categories fuel E C [] w = Some (None, w)"
| "run_categories fuel E C (cat # cats) w =
     (case scrape_category fuel E C (fst cat) (snd cat) w of
        None \<Rightarrow> None
      | Some (Some e, w1) \<Rightarrow> Some (Some e, w1)
      | Some (None, w1) \<Rightarrow> run_categories fuel E C cats w1)"

record disk =
  disk_csv :: "string \<Rightarrow> string list list option"
  disk_text :: "string \<Rightarrow> string option"
  disk_images :: "string \<Rightarrow> string option"

definition initial_world :: "'d \<Rightarrow> disk \<Rightarrow> real list \<Rightarrow> 'd world" where
  \<comment> \<open>the state when the run starts: the new browser, the disk as it is, the draws to come\<close>
  "initial_world d files rs = \<lparr>driver = d, trace = [], csv_files = disk_csv files,
     text_files = disk_text files, image_files = disk_images files, draws = rs\<rparr>"

definition main :: "nat \<Rightarrow> 'd env \<Rightarrow> config \<Rightarrow> disk \<Rightarrow> real list \<Rightarrow> (exn + 'd world) option" where
  \<comment> \<open>\<^verbatim>\<open>get_driver()\<close> is outside the \<^verbatim>\<open>try\<close>; the handler logs, \<^verbatim>\<open>finally\<close> quits\<close>
  "main fuel E C files rs =
     (case get_driver E of
        Inl e \<Rightarrow> Some (Inl e)
      | Inr d \<Rightarrow>
          (case run_categories fuel E C (CATEGORIES C) (initial_world d files rs) of
             None \<Rightarrow> None
           | Some (Some e, w) \<Rightarrow> Some (Inr (emit Quit (emit (UnhandledException e) w)))
           | Some (None, w) \<Rightarrow> Some (Inr (emit Quit w))))"

section \<open>A static site\<close>

text \<open>
  A concrete environment for evaluating the crawler: the browser state is the URL it is
  on, every load of a URL gives the same page, a refresh changes nothing, no overlay
  button is ever displayed and no listing page has a next button. The parser is a table
  of the pages below; the MD5 values are the real digests of the URLs in the table;
  \<^verbatim>\<open>urljoin\<close> is the concatenation, which it is for the site's base and a reference
  that is empty or an absolute path.
\<close>

definition empty_soup :: soup where
  "empty_soup = \<lparr>productTitle = None, a_price_whole = None, a_price_fraction = None,
     a_price_symbol = None, a_icon_alt = None, bylineInfo = None, color_name = None,
     product_facts = [], about_ul = None, landingImage = None, s_no_outline = []\<rparr>"

definition listing_html :: string where
  "listing_html = ''<a class='a-link-normal s-no-outline' href=/dp/B01/ref=sr_1_1></a><a class='a-link-normal s-no-outline' href=/dp/B02/ref=sr_1_2></a>''"

definition jeans_html :: string where
  "jeans_html = ''<span id=productTitle>Jeans</span><span class=a-icon-alt>4.5 out of 5 stars</span>''"

definition shirt_html :: string where
  "shirt_html = ''<span id=productTitle>Shirt</span>''"

definition blank_rating_html :: string where
  "blank_rating_html = ''<span id=productTitle>Jeans</span><span class=a-icon-alt></span>''"

definition apology_html :: string where
  "apology_html = ''<span id=productTitle>Jeans</span><p>We're sorry, this size is sold out</p>''"


definition facts_html :: string where
  "facts_html = ''<span id=productTitle>Belt</span><div class=product-facts-detail><div class=a-col-left><span class=a-color-base>ID</span></div><div class=a-col-right><span class=a-color-base>A-77</span></div></div>''"

definition ref_listing_html :: string where
  \<comment> \<open>a listing whose two products have a name that starts with \<^verbatim>\<open>ref\<close> in their links\<close>
  "ref_listing_html = ''<a class='a-link-normal s-no-outline' href=/refill-pack/dp/B01/ref=sr_1_1></a><a class='a-link-normal s-no-outline' href=/reflective-vest/dp/B02/ref=sr_1_2></a>''"

definition home_html :: string where
  "home_html = ''<title>Amazon.com</title>''"

definition demo_parse :: "string \<Rightarrow> soup" where
  "demo_parse src =
     (if src = listing_html
      then empty_soup\<lparr>s_no_outline := [Some ''/dp/B01/ref=sr_1_1'', Some ''/dp/B02/ref=sr_1_2'']\<rparr>
      else if src = ref_listing_html
      then empty_soup\<lparr>s_no_outline :=
        [Some ''/refill-pack/dp/B01/ref=sr_1_1'', Some ''/reflective-vest/dp/B02/ref=sr_1_2'']\<rparr>
      else if src = jeans_html
      then empty_soup\<lparr>productTitle := Some ''Jeans'', a_icon_alt := Some ''4.5 out of 5 stars''\<rparr>
      else if src = shirt_html then empty_soup\<lparr>productTitle := Some ''Shirt''\<rparr>
      else if src = blank_rating_html
      then empty_soup\<lparr>productTitle := Some ''Jeans'', a_icon_alt := Some ''''\<rparr>
      else if src = apology_html then empty_soup\<lparr>productTitle := Some ''Jeans''\<rparr>
      else if src = facts_html
      then empty_soup\<lparr>productTitle := Some ''Belt'', product_facts := [(Some ''ID'', Some ''A-77'')]\<rparr>
      else empty_soup)"

definition demo_md5 :: "string \<Rightarrow> string" where
  "demo_md5 url =
     (if url = ''https://www.amazon.com/dp/B01'' then ''0464e5afb605bbeb1eecaa1bb81358f3''
      else if url = ''https://www.amazon.com/dp/B02'' then ''601e8d8c142d01fedae38b2abad4910f''
      else if url = ''https://www.amazon.com'' then ''86f59539dd529bf08baac69ebfca0e7b''
      else if url = ''https://www.amazon.com/refill-pack/dp/B01'' then ''19b72101d28a89fc2a79d0c37f953f0b''
      else if url = ''https://www.amazon.com/reflective-vest/dp/B02'' then ''bb1e5da8916390b0313da47b703252c4''
      else '''')"

definition listing_url :: string where
  "listing_url = ''https://www.amazon.com/s?rh=n%3A1045564''"

definition jeans_url :: string where
  "jeans_url = ''https://www.amazon.com/dp/B01''"

definition jeans_href :: string where
  "jeans_href = ''/dp/B01/ref=sr_1_1''"

definition jeans_id :: string where
  "jeans_id = ''0464e5afb605bbeb1eecaa1bb81358f3''"

definition shirt_id :: string where
  "shirt_id = ''601e8d8c142d01fedae38b2abad4910f''"

definition jeans_csv :: string where
  "jeans_csv = ''bronze/jeans_bronze.csv''"

definition jeans_txt :: string where
  "jeans_txt = ''bronze/about_item/0464e5afb605bbeb1eecaa1bb81358f3.txt''"

definition shop :: "string \<Rightarrow> string \<Rightarrow> string" where
  \<comment> \<open>the site: a listing of two products, the first product's page given\<close>
  "shop first_page url =
     (if url = ''https://www.amazon.com/s?rh=n%3A1045564'' then listing_html
      else if url = ''https://www.amazon.com/dp/B01'' then first_page
      else if url = ''https://www.amazon.com/dp/B02'' then shirt_html
      else '''')"

definition refill_href :: string where
  "refill_href = ''/refill-pack/dp/B01/ref=sr_1_1''"

definition vest_href :: string where
  "vest_href = ''/reflective-vest/dp/B02/ref=sr_1_2''"

definition site_root_id :: string where
  "site_root_id = ''86f59539dd529bf08baac69ebfca0e7b''"

definition ref_shop :: "string \<Rightarrow> string" where
  \<comment> \<open>the site whose listing is \<open>ref_listing_html\<close>, with its home page\<close>
  "ref_shop url =
     (if url = ''https://www.amazon.com/s?rh=n%3A1045564'' then ref_listing_html
      else if url = ''https://www.amazon.com'' then home_html
      else if url = ''https://www.amazon.com/refill-pack/dp/B01'' then jeans_html
      else if url = ''https://www.amazon.com/reflective-vest/dp/B02'' then shirt_html
      else '''')"

definition static_env :: "(string \<Rightarrow> string) \<Rightarrow> string list \<Rightarrow> string list \<Rightarrow> string env" where
  \<comment> \<open>\<open>broken\<close>: the URLs whose load raises; \<open>readonly\<close>: the paths that cannot be opened
      for writing\<close>
  "static_env html broken readonly =
     \<lparr>page_source = html,
      nav_get = (\<lambda>url d. if url \<in> set broken then (Some WebDriverException, d) else (None, url)),
      nav_refresh = (\<lambda>d. (None, d)),
      displayed = (\<lambda>l d. False),
      click_on = (\<lambda>l d. d),
      clear_storage = (\<lambda>d. (None, d)),
      delete_all_cookies = (\<lambda>d. (None, d)),
      title_located = (\<lambda>d. productTitle (demo_parse (html d)) \<noteq> None),
      expander = (\<lambda>d. d),
      scroller = (\<lambda>d. d),
      next_button = (\<lambda>d. None),
      get_driver = Inr ''data:,'',
      md5_hexdigest = demo_md5,
      urljoin = (\<lambda>base path. base @ path),
      BeautifulSoup = demo_parse,
      json_first_key = (\<lambda>x. None),
      http_get = (\<lambda>url. None),
      writable = (\<lambda>path. path \<notin> set readonly)\<rparr>"

definition demo_config :: config where
  "demo_config = \<lparr>BASE_DIR = ''bronze'', IMAGES_DIR = ''bronze/images'',
     TEXT_DIR = ''bronze/about_item'', MAX_PER_CATEGORY = 10, DELAY_RANGE = (Finite 2, Finite 5),
     BASE_SEARCH_URL = ''https://www.amazon.com/s?rh=n%3A'',
     CATEGORIES = [(''jeans'', ''1045564'')]\<rparr>"

definition empty_disk :: disk where
  "empty_disk = \<lparr>disk_csv = (\<lambda>p. None), disk_text = (\<lambda>p. None), disk_images = (\<lambda>p. None)\<rparr>"

definition disk_of :: "'d world \<Rightarrow> disk" where
  "disk_of w = \<lparr>disk_csv = csv_files w, disk_text = text_files w, disk_images = image_files w\<rparr>"

definition fresh_world :: "'d \<Rightarrow> 'd world" where
  "fresh_world d = \<lparr>driver = d, trace = [], csv_files = (\<lambda>p. None), text_files = (\<lambda>p. None),
     image_files = (\<lambda>p. None), draws = []\<rparr>"

definition csv_after :: "(exn + 'd world) option \<Rightarrow> string \<Rightarrow> string list list option" where
  \<comment> \<open>a CSV file after a run of \<open>main\<close> that returned\<close>
  "csv_after r path = (case r of Some (Inr w) \<Rightarrow> csv_files w path | _ \<Rightarrow> None)"

definition trace_after :: "(exn + 'd world) option \<Rightarrow> event list" where
  "trace_after r = (case r of Some (Inr w) \<Rightarrow> trace w | _ \<Rightarrow> [])"

definition second_run :: "nat \<Rightarrow> 'd env \<Rightarrow> config \<Rightarrow> (exn + 'd world) option" where
  \<comment> \<open>\<open>main\<close> on an empty disk, then \<open>main\<close> again on the disk the first run left\<close>
  "second_run fuel E C =
     (case main fuel E C empty_disk [] of
        Some (Inr w) \<Rightarrow> main fuel E C (disk_of w) []
      | r \<Rightarrow> r)"

section \<open>Derived notions used in the statements\<close>

definition write_all ::
  "string list list option \<Rightarrow> (string \<times> string option) list list \<Rightarrow> string list list option" where
  \<comment> \<open>the file after the writer has appended the records one after the other\<close>
  "write_all f records = foldl (\<lambda>g data. Some (write_csv g data)) f records"




definition saved :: "event list \<Rightarrow> string list" where
  \<comment> \<open>the identifiers of the items a trace reports as saved, in order\<close>
  "saved tr = concat (map (\<lambda>ev. case ev of Saved p \<Rightarrow> [p] | _ \<Rightarrow> []) tr)"

definition same_disk :: "'d world \<Rightarrow> 'd world \<Rightarrow> bool" where
  \<comment> \<open>nothing on disk differs, no draw was taken and no item was saved\<close>
  "same_disk w w' = (csv_files w' = csv_files w \<and> text_files w' = text_files w \<and>
     image_files w' = image_files w \<and> draws w' = draws w \<and>
     saved (trace w') = saved (trace w))"

definition world_of :: "exn option \<times> 'd crawl \<Rightarrow> 'd world" where
  "world_of r = fst (snd r)"

definition ids_of :: "exn option \<times> 'd crawl \<Rightarrow> string option set" where
  "ids_of r = fst (snd (snd r))"

definition total_of :: "exn option \<times> 'd crawl \<Rightarrow> int" where
  "total_of r = snd (snd (snd r))"

definition jeans_record :: "(string \<times> string option) list" where
  "jeans_record = [(''id'', Some ''0464e5afb605bbeb1eecaa1bb81358f3''),
     (''url'', Some ''https://www.amazon.com/dp/B01''), (''title'', Some ''Jeans''),
     (''price'', None), (''rating'', Some ''4.5''), (''brand'', Some ''N/A''),
     (''color'', Some ''N/A'')]"

definition shirt_record :: "(string \<times> string option) list" where
  \<comment> \<open>a later record with one more column, from a product-facts row\<close>
  "shirt_record = [(''id'', Some ''601e8d8c142d01fedae38b2abad4910f''),
     (''url'', Some ''https://www.amazon.com/dp/B02''), (''title'', Some ''Shirt''),
     (''price'', None), (''rating'', Some ''N/A''), (''brand'', Some ''N/A''),
     (''color'', Some ''N/A''), (''fabric_type'', Some ''Cotton'')]"

definition belt_record :: "(string \<times> string option) list" where
  \<comment> \<open>a later record with another additional column\<close>
  "belt_record = [(''id'', Some ''d5ed0341e1896d48b1b4284d69b78157''),
     (''url'', Some ''https://www.amazon.com/dp/B03''), (''title'', Some ''Belt''),
     (''price'', None), (''rating'', Some ''N/A''), (''brand'', Some ''N/A''),
     (''color'', Some ''N/A''), (''origin'', Some ''Imported'')]"

section \<open>Rate governor: when pacing raises\<close>

lemma max_float_power: "max_float = 2 ^ 1024 - 2 ^ 971"
  by (simp add: max_float_def)

lemma fl_Finite: "\<bar>x\<bar> \<le> max_float \<Longrightarrow> fl x = Finite x"
  by (auto simp: fl_def)

lemma between_bounds:
  fixes a b r :: real
  assumes "0 \<le> r" and "r \<le> 1"
  shows "min a b \<le> a + (b - a) * r" and "a + (b - a) * r \<le> max a b"
proof -
  have eq: "a + (b - a) * r = (1 - r) * a + r * b"
    by (simp add: algebra_simps)
  have "(1 - r) * min a b \<le> (1 - r) * a" "r * min a b \<le> r * b"
    using assms by (auto intro!: mult_left_mono)
  then have "(1 - r) * min a b + r * min a b \<le> (1 - r) * a + r * b" by linarith
  then show "min a b \<le> a + (b - a) * r" by (simp add: eq algebra_simps)
  have "(1 - r) * a \<le> (1 - r) * max a b" "r * b \<le> r * max a b"
    using assms by (auto intro!: mult_left_mono)
  then have "(1 - r) * a + r * b \<le> (1 - r) * max a b + r * max a b" by linarith
  then show "a + (b - a) * r \<le> max a b" by (simp add: eq algebra_simps)
qed

lemma uniform_Finite:
  assumes "0 \<le> r" and "r \<le> 1"
    and "\<bar>a\<bar> \<le> max_float" and "\<bar>b\<bar> \<le> max_float" and "\<bar>b - a\<bar> \<le> max_float"
  shows "uniform (Finite a) (Finite b) r = Finite (a + (b - a) * r)"
proof -
  have d: "fsub (Finite b) (Finite a) = Finite (b - a)"
    using assms(5) by (simp add: fsub_def fl_Finite)
  have "\<bar>(b - a) * r\<bar> \<le> \<bar>b - a\<bar> * 1"
    unfolding abs_mult using assms(1,2) by (intro mult_left_mono) auto
  with assms(5) have "\<bar>(b - a) * r\<bar> \<le> max_float" by simp
  then have s: "fscale (Finite (b - a)) r = Finite ((b - a) * r)"
    by (simp add: fl_Finite)
  have u: "uniform (Finite a) (Finite b) r = fl (a + (b - a) * r)"
    by (simp only: uniform_def d s fadd.simps)
  have "\<bar>a + (b - a) * r\<bar> \<le> max_float"
    using between_bounds [OF assms(1,2), of a b] assms(3,4)
    by (simp add: min_def max_def abs_le_iff split: if_splits)
  then show ?thesis
    by (simp add: u fl_Finite)
qed

text \<open>
  C9, as the spec states it: pacing never throws, whatever the configured interval, and
  a negative interval is a pace of zero duration. The code passes the drawn duration to
  \<^verbatim>\<open>time.sleep\<close> unchanged. A negative duration raises ValueError there: with the
  interval \<open>[-2, -1]\<close> and the draw \<open>0\<close> the pace raises. A duration of \<open>2 ^ 63\<close>
  nanoseconds or more raises OverflowError: so does the interval \<open>[0, 2e10]\<close> with the
  draw \<open>1/2\<close>, and an interval whose upper bound is infinite.
\<close>

theorem pace_negative_interval_raises:
  "random_delay (Finite (- 2), Finite (- 1)) 0 = Inl ValueError
   \<and> random_delay (Finite 0, Finite (2 * 10 ^ 10)) (1 / 2) = Inl OverflowError
   \<and> random_delay (Finite 0, PosInf) (1 / 2) = Inl OverflowError"
  by (simp add: random_delay_def uniform_def fsub_def fl_def max_float_def)

text \<open>
  C9, amended: for a draw \<open>r\<close> of \<^verbatim>\<open>random()\<close> in \<open>[0, 1]\<close>, an interval whose bounds lie
  between 0 and \<open>9e9\<close> seconds is paced without an exception, for the duration
  \<open>a + (b - a) * r\<close>, which lies between the two bounds (a zero interval gives the zero
  duration). An interval with both bounds negative, down to \<open>-9e9\<close>, raises ValueError,
  and one with both bounds at \<open>2 ^ 63\<close> nanoseconds or more raises OverflowError.
\<close>

theorem pace_within_interval:
  assumes "0 \<le> r" and "r \<le> 1"
  shows "(0 \<le> a \<and> a \<le> 9 * 10 ^ 9 \<and> 0 \<le> b \<and> b \<le> 9 * 10 ^ 9 \<longrightarrow>
            random_delay (Finite a, Finite b) r = Inr (a + (b - a) * r) \<and>
            min a b \<le> a + (b - a) * r \<and> a + (b - a) * r \<le> max a b)
       \<and> (- (9 * 10 ^ 9) \<le> a \<and> a < 0 \<and> - (9 * 10 ^ 9) \<le> b \<and> b < 0 \<longrightarrow>
            random_delay (Finite a, Finite b) r = Inl ValueError)
       \<and> (2 ^ 63 \<le> a * 10 ^ 9 \<and> a \<le> max_float \<and> 2 ^ 63 \<le> b * 10 ^ 9 \<and> b \<le> max_float \<longrightarrow>
            random_delay (Finite a, Finite b) r = Inl OverflowError)"
proof (intro conjI impI)
  note bb = between_bounds [OF assms, of a b]
  have big: "9 * 10 ^ 9 \<le> max_float" by (simp add: max_float_def)
  show "min a b \<le> a + (b - a) * r" using bb by simp
  show "a + (b - a) * r \<le> max a b" using bb by simp
  show "random_delay (Finite a, Finite b) r = Inr (a + (b - a) * r)"
    if h: "0 \<le> a \<and> a \<le> 9 * 10 ^ 9 \<and> 0 \<le> b \<and> b \<le> 9 * 10 ^ 9"
  proof -
    have u: "uniform (Finite a) (Finite b) r = Finite (a + (b - a) * r)"
      using h big by (intro uniform_Finite assms) auto
    have "0 \<le> a + (b - a) * r" "a + (b - a) * r \<le> 9 * 10 ^ 9"
      using bb h by (auto simp: min_def max_def split: if_splits)
    then show ?thesis by (simp add: random_delay_def u)
  qed
  show "random_delay (Finite a, Finite b) r = Inl ValueError"
    if h: "- (9 * 10 ^ 9) \<le> a \<and> a < 0 \<and> - (9 * 10 ^ 9) \<le> b \<and> b < 0"
  proof -
    have u: "uniform (Finite a) (Finite b) r = Finite (a + (b - a) * r)"
      using h big by (intro uniform_Finite assms) auto
    have "a + (b - a) * r < 0" "- (9 * 10 ^ 9) \<le> a + (b - a) * r"
      using bb h by (auto simp: min_def max_def split: if_splits)
    then show ?thesis by (simp add: random_delay_def u)
  qed
  show "random_delay (Finite a, Finite b) r = Inl OverflowError"
    if h: "2 ^ 63 \<le> a * 10 ^ 9 \<and> a \<le> max_float \<and> 2 ^ 63 \<le> b * 10 ^ 9 \<and> b \<le> max_float"
  proof -
    have pos: "0 \<le> a" "0 \<le> b" using h by auto
    have u: "uniform (Finite a) (Finite b) r = Finite (a + (b - a) * r)"
      using h pos by (intro uniform_Finite assms) auto
    have "2 ^ 63 \<le> min a b * 10 ^ 9" using h by (simp add: min_def)
    also have "\<dots> \<le> (a + (b - a) * r) * 10 ^ 9" using bb(1) by simp
    finally show ?thesis by (simp add: random_delay_def u)
  qed
qed

theorem pace_within_interval_witness:
  "random_delay (Finite 2, Finite 5) (1 / 2) = Inr (7 / 2)
   \<and> random_delay (Finite 0, Finite 0) 0 = Inr 0
   \<and> random_delay (Finite (- 3), Finite (- 1)) (1 / 2) = Inl ValueError
   \<and> random_delay (Finite (10 ^ 10), Finite (2 * 10 ^ 10)) (1 / 2) = Inl OverflowError"
  using pace_within_interval [where r = "1 / 2" and a = 2 and b = 5]
    pace_within_interval [where r = 0 and a = 0 and b = 0]
    pace_within_interval [where r = "1 / 2" and a = "- 3" and b = "- 1"]
    pace_within_interval [where r = "1 / 2" and a = "10 ^ 10" and b = "2 * 10 ^ 10"]
  by (simp add: max_float_def)

section \<open>Field extractors: the rating of an empty element\<close>

text \<open>
  C10: the extractors for title, rating, brand and color never raise and give
  \<open>N/A\<close> for a missing element. The rating extractor takes the first word of the
  element's text; for an element that is present with no text,
  \<^verbatim>\<open><span class=a-icon-alt></span>\<close>, there is no first word and it raises IndexError.
\<close>

theorem rating_of_empty_element_raises:
  "extract_rating (demo_parse blank_rating_html) = Inl IndexError"
  by code_simp

section \<open>Output file: header and later columns\<close>

lemma write_all_Some: "write_all (Some rows) ds = Some (rows @ map csv_row ds)"
  unfolding write_all_def
  by (induction ds arbitrary: rows) (simp_all add: write_csv_def)

lemma write_all_None: "write_all None (d # ds) = Some (map fst d # map csv_row (d # ds))"
  using write_all_Some [of "[map fst d, csv_row d]" ds]
  by (simp add: write_all_def write_csv_def)

lemma keys_dict_set: "fst ` set (dict_set k v d) = insert k (fst ` set d)"
  by (induction d) auto

lemma keys_dict_update: "fst ` set (dict_update d e) = fst ` set d \<union> fst ` set e"
  unfolding dict_update_def
  by (induction e arbitrary: d) (auto simp: keys_dict_set)

lemma keys_DictReader_row: "fst ` set (named (DictReader_row h row)) \<subseteq> set h"
proof -
  have "fst ` set (zip h (map Some row)) \<subseteq> set h"
    by (auto dest: set_zip_leftD)
  moreover have "fst ` set (map (\<lambda>k. (k, None)) (drop (length row) h)) \<subseteq> set h"
    by (auto dest: in_set_dropD)
  ultimately show ?thesis
    by (auto simp: DictReader_row_def keys_dict_update)
qed

lemma unnamed_column: "k \<notin> set h \<Longrightarrow> map_of (named (DictReader_row h row)) k = None"
  using keys_DictReader_row [of h row] by (auto simp: map_of_eq_None_iff)

lemma DictReader_append:
  "DictReader ((h # body) @ [row]) = DictReader (h # body) @ DictReader [h, row]"
  by (simp add: DictReader_def)

lemma map_of_dict_set: "map_of (dict_set k v d) = (map_of d)(k \<mapsto> v)"
  by (induction d) auto

lemma map_of_dict_update: "map_of (dict_update d e) = map_of d ++ map_of (rev e)"
  unfolding dict_update_def
proof (induction e arbitrary: d)
  case Nil
  then show ?case by simp
next
  case (Cons x e)
  show ?case
    by (rule ext) (simp add: Cons.IH map_of_dict_set map_add_def split: option.splits)
qed

lemma map_of_rev_constant:
  "map_of (rev (map (\<lambda>k. (k, c)) ks)) k = (if k \<in> set ks then Some c else None)"
  by (induction ks) (auto simp: map_add_def split: option.splits)

lemma map_of_rev_distinct: "distinct (map fst xs) \<Longrightarrow> map_of (rev xs) = map_of xs"
  by (subst map_of_inject_set) (simp_all add: rev_map [symmetric])

lemma named_lookup:
  "map_of (named (DictReader_row h row)) k =
     (if k \<in> set (drop (length row) h) then Some None
      else map_of (rev (zip h (map Some row))) k)"
  by (simp add: DictReader_row_def map_of_dict_update map_of_rev_constant map_add_def)

lemma cell_by_position:
  assumes "distinct h" and "i < length h" and "i < length row"
  shows "map_of (named (DictReader_row h row)) (h ! i) = Some (Some (row ! i))"
proof -
  have "h ! i \<in> set (take (length row) h)"
    using assms(2,3) by (auto simp: in_set_conv_nth intro!: exI [of _ i])
  moreover have "set (take (length row) h) \<inter> set (drop (length row) h) = {}"
    using assms(1) by (rule set_take_disj_set_drop_if_distinct) simp
  ultimately have out: "h ! i \<notin> set (drop (length row) h)"
    by auto
  have d: "distinct (map fst (zip h (map Some row)))"
    using assms(1) by (simp add: map_fst_zip_take distinct_take)
  have "(h ! i, Some (row ! i)) \<in> set (zip h (map Some row))"
    using assms(2,3) by (auto simp: set_zip intro!: exI [of _ i])
  then have "map_of (zip h (map Some row)) (h ! i) = Some (Some (row ! i))"
    using d by simp
  then show ?thesis
    using out d by (simp add: named_lookup map_of_rev_distinct)
qed

lemma missing_cell:
  assumes "i < length h" and "length row \<le> i"
  shows "map_of (named (DictReader_row h row)) (h ! i) = Some None"
proof -
  have "h ! i \<in> set (drop (length row) h)"
    using assms by (auto simp: in_set_conv_nth intro!: exI [of _ "i - length row"])
  then show ?thesis
    by (simp add: named_lookup)
qed

text \<open>
  C6, as the spec states it: a later record with an additional column is accommodated,
  and the file parses with the extra field present. The writer gives each row its own
  field names and never touches the header: after a record with the seven base columns
  and one that adds \<open>fabric_type\<close>, no parsed row has a field \<open>fabric_type\<close>; the cell
  is under the reader's rest key.
\<close>

theorem extra_column_has_no_name:
  "map (\<lambda>r. map_of (named r) ''fabric_type'')
     (DictReader (the (write_all None [jeans_record, shirt_record]))) = [None, None]
   \<and> map restkey (DictReader (the (write_all None [jeans_record, shirt_record])))
       = [None, Some [''Cotton'']]"
  by code_simp

text \<open>
  C6, amended: the header is written once, from the first record's keys, when the file
  does not exist; every write only appends one row, so the rows written before stay as
  they were and in their order, and they parse as before. The header is never extended
  and a row is written in its own record's key order, so the file is read by position
  against the first record's keys: a name that is not in the header is a field of no
  row; the cell at a position within the header is read under the header's name at
  that position, whatever key it was written for; a header name beyond the row's end
  is read as \<open>None\<close>; the cells beyond the header's end are returned together under
  the reader's rest key, which is absent for a row no longer than the header.
\<close>

theorem writer_appends_under_first_header:
  "write_all None (d # ds) = Some (map fst d # map csv_row (d # ds))
   \<and> write_all (Some rows) ds = Some (rows @ map csv_row ds)
   \<and> DictReader ((h # body) @ [csv_row data]) = DictReader (h # body) @ DictReader [h, csv_row data]
   \<and> DictReader (map fst d # map csv_row (d # ds))
       = map (DictReader_row (map fst d)) (filter (\<lambda>r. r \<noteq> []) (map csv_row (d # ds)))
   \<and> (k \<notin> set h \<longrightarrow> map_of (named (DictReader_row h row)) k = None)
   \<and> (distinct h \<and> i < length h \<and> i < length row \<longrightarrow>
        map_of (named (DictReader_row h row)) (h ! i) = Some (Some (row ! i)))
   \<and> (i < length h \<and> length row \<le> i \<longrightarrow>
        map_of (named (DictReader_row h row)) (h ! i) = Some None)
   \<and> restkey (DictReader_row h row)
       = (if length h < length row then Some (drop (length h) row) else None)"
proof -
  have "DictReader (map fst d # map csv_row (d # ds))
       = map (DictReader_row (map fst d)) (filter (\<lambda>r. r \<noteq> []) (map csv_row (d # ds)))"
    by (simp add: DictReader_def)
  moreover have "restkey (DictReader_row h row)
       = (if length h < length row then Some (drop (length h) row) else None)"
    by (simp add: DictReader_row_def)
  ultimately show ?thesis
    using write_all_None [of d ds] write_all_Some [of rows ds] DictReader_append [of h body "csv_row data"]
      unnamed_column [of k h row] cell_by_position [of h i row] missing_cell [of i h row]
    by blast
qed

theorem writer_appends_under_first_header_witness:
  "''origin'' \<notin> set (map fst shirt_record)
   \<and> map_of (named (DictReader_row (map fst shirt_record) (csv_row belt_record))) ''origin'' = None
   \<and> map_of (named (DictReader_row (map fst shirt_record) (csv_row belt_record))) ''fabric_type''
       = Some (Some ''Imported'')
   \<and> restkey (DictReader_row (map fst shirt_record) (csv_row belt_record)) = None
   \<and> map_of (named (DictReader_row (map fst shirt_record) (csv_row jeans_record))) ''fabric_type''
       = Some None
   \<and> restkey (DictReader_row (map fst jeans_record) (csv_row shirt_record)) = Some [''Cotton'']"
proof -
  have k: "''origin'' \<notin> set (map fst shirt_record)"
    by code_simp
  have d: "distinct (map fst shirt_record)"
    by code_simp
  have l: "length (map fst shirt_record) = 8" "length (csv_row belt_record) = 8"
    "length (csv_row jeans_record) = 7" "length (map fst jeans_record) = 7"
    "length (csv_row shirt_record) = 8"
    by code_simp+
  have n: "map fst shirt_record ! 7 = ''fabric_type''" "csv_row belt_record ! 7 = ''Imported''"
    "drop 7 (csv_row shirt_record) = [''Cotton'']"
    by code_simp+
  show ?thesis
    using k d l n
      writer_appends_under_first_header
        [where h = "map fst shirt_record" and row = "csv_row belt_record"
          and k = "''origin''" and i = 7]
      writer_appends_under_first_header
        [where h = "map fst shirt_record" and row = "csv_row jeans_record" and i = 7]
      writer_appends_under_first_header
        [where h = "map fst jeans_record" and row = "csv_row shirt_record"]
    by simp
qed

section \<open>Interstitial recovery: when the session is cleared\<close>












section \<open>What the browser steps leave alone\<close>

lemma same_disk_refl: "same_disk w w"
  by (simp add: same_disk_def)

lemma same_disk_trans: "same_disk w w1 \<Longrightarrow> same_disk w1 w2 \<Longrightarrow> same_disk w w2"
  by (simp add: same_disk_def)

lemma same_disk_emit: "(\<forall>p. ev \<noteq> Saved p) \<Longrightarrow> same_disk w (emit ev w)"
  by (cases ev) (simp_all add: same_disk_def emit_def saved_def)

lemma same_disk_driver_get: "same_disk w (snd (driver_get E url w))"
  by (simp add: same_disk_def driver_get_def emit_def saved_def split: prod.splits)

lemma same_disk_driver_refresh: "same_disk w (snd (driver_refresh E w))"
  by (simp add: same_disk_def driver_refresh_def emit_def saved_def split: prod.splits)

lemma same_disk_click: "same_disk w (snd (click_continue_shopping_if_present E w))"
  by (simp add: same_disk_def click_continue_shopping_if_present_def emit_def saved_def)

lemma same_disk_refresh_page: "same_disk w (refresh_page E url w)"
proof -
  obtain r1 w1 where a: "driver_refresh E w = (r1, w1)"
    by (cases "driver_refresh E w")
  obtain r2 w2 where b: "driver_get E ''https://www.amazon.com'' w1 = (r2, w2)"
    by (cases "driver_get E ''https://www.amazon.com'' w1")
  have s1: "same_disk w w1"
    using same_disk_driver_refresh [of w E] a by simp
  have s2: "same_disk w1 w2"
    using same_disk_driver_get [of w1 E "''https://www.amazon.com''"] b by simp
  have s3: "same_disk w2 (snd (driver_get E (the url) w2))"
    by (rule same_disk_driver_get)
  show ?thesis
    using a b s1 same_disk_trans [OF s1 s2] same_disk_trans [OF same_disk_trans [OF s1 s2] s3]
    by (simp add: refresh_page_def split: option.splits)
qed

lemma same_disk_clear_session: "same_disk w (clear_session E w)"
  by (simp add: same_disk_def clear_session_def emit_def saved_def Let_def
      split: prod.splits option.splits)

lemma same_disk_recovery_cycle: "same_disk w (recovery_cycle E url attempt w)"
proof -
  let ?w1 = "snd (click_continue_shopping_if_present E w)"
  let ?w2 = "refresh_page E url ?w1"
  let ?w3 = "snd (click_continue_shopping_if_present E ?w2)"
  have s3: "same_disk w ?w3"
    by (meson same_disk_click same_disk_refresh_page same_disk_trans)
  then have "same_disk w (clear_session E ?w3)"
    by (meson same_disk_clear_session same_disk_trans)
  with s3 show ?thesis
    by (simp add: recovery_cycle_def Let_def)
qed

lemma same_disk_sorry_loop: "same_disk w (snd (sorry_loop E url a n w))"
proof (induction n arbitrary: a w)
  case 0
  then show ?case by (simp add: same_disk_emit same_disk_refl)
next
  case (Suc n)
  show ?case
    using same_disk_trans [OF same_disk_recovery_cycle [of w E url a]
        Suc.IH [of "recovery_cycle E url a w" "Suc a"]]
    by (simp add: same_disk_refl)
qed

lemma same_disk_handle_sorry_page: "same_disk w (snd (handle_sorry_page E url n w))"
  by (simp add: handle_sorry_page_def same_disk_sorry_loop)

lemma pace_frame:
  "csv_files (snd (pace C w)) = csv_files w \<and> text_files (snd (pace C w)) = text_files w
   \<and> image_files (snd (pace C w)) = image_files w \<and> trace (snd (pace C w)) = trace w"
  by (simp add: pace_def Let_def split: sum.splits)

lemma save_about_text_frame:
  "csv_files (save_about_text E C pid about w) = csv_files w
   \<and> image_files (save_about_text E C pid about w) = image_files w
   \<and> saved (trace (save_about_text E C pid about w)) = saved (trace w)
   \<and> (p \<noteq> path_join (TEXT_DIR C) (pid @ ''.txt'') \<longrightarrow>
        text_files (save_about_text E C pid about w) p = text_files w p)"
  by (simp add: save_about_text_def Let_def emit_def saved_def)

lemma save_image_frame:
  "csv_files (save_image E C pid s w) = csv_files w
   \<and> text_files (save_image E C pid s w) = text_files w
   \<and> saved (trace (save_image E C pid s w)) = saved (trace w)
   \<and> (p \<noteq> path_join (IMAGES_DIR C) (pid @ ''.jpg'') \<longrightarrow>
        image_files (save_image E C pid s w) p = image_files w p)"
  by (simp add: save_image_def download_image_def Let_def emit_def saved_def
      split: option.splits prod.splits bool.splits)

lemma expand_details_frame: "same_disk w (expand_details E w)"
  by (simp add: expand_details_def same_disk_def emit_def saved_def)

section \<open>Persistence and the dedup index\<close>

text \<open>
  C2, as the spec states it: when an artifact cannot be persisted the identifier is not
  added to the index. With the text artifact's path not writable the failure is logged
  and the item goes on: the row is appended and the identifier is in the index, with no
  text file on disk.
\<close>

theorem text_failure_still_indexes_item:
  "ids_of (visit_item (static_env (shop jeans_html) [] [jeans_txt]) demo_config jeans_csv
       (Some jeans_href) (fresh_world listing_url, {}, 0)) = {Some jeans_id}
   \<and> text_files (world_of (visit_item (static_env (shop jeans_html) [] [jeans_txt]) demo_config
       jeans_csv (Some jeans_href) (fresh_world listing_url, {}, 0))) jeans_txt = None
   \<and> trace (world_of (visit_item (static_env (shop jeans_html) [] [jeans_txt]) demo_config
       jeans_csv (Some jeans_href) (fresh_world listing_url, {}, 0)))
     = [Get jeans_url, ExpandDetails, TextSaveFailed jeans_id, Saved jeans_id]"
  by code_simp


text \<open>
  C2, amended: the identifier is added to the index only when the CSV row has been
  appended, and after it. If the row cannot be appended the exception leaves the item
  with the index and the file as they were; so does an exception of the extraction.
  Whether the text artifact or the image could be written has no part in it: they are
  logged and the row is appended all the same.
\<close>

theorem index_follows_csv_append:
  assumes "persist_item E C f pid url (w, ids, tot) = (r, (w', ids', tot'))"
  shows "(case build_data pid url (BeautifulSoup E (page_source E (driver (expand_details E w)))) of
            Inl e \<Rightarrow> r = Some e \<and> ids' = ids \<and> csv_files w' = csv_files w
          | Inr data \<Rightarrow>
              if writable E f
              then ids' = insert (Some pid) ids \<and> tot' = tot + 1 \<and>
                   csv_files w' = (csv_files w)(f := Some (write_csv (csv_files w f) data))
              else r = Some OSError \<and> ids' = ids \<and> csv_files w' = csv_files w)"
proof (cases "build_data pid url (BeautifulSoup E (page_source E (driver (expand_details E w))))")
  case (Inl e)
  then show ?thesis
    using assms expand_details_frame [of w E]
    by (auto simp: persist_item_def Let_def same_disk_def)
next
  case (Inr data)
  let ?w1 = "expand_details E w"
  let ?s = "BeautifulSoup E (page_source E (driver ?w1))"
  let ?w3 = "save_image E C pid ?s (save_about_text E C pid (extract_about_text ?s) ?w1)"
  have c3: "csv_files ?w3 = csv_files w"
    using save_image_frame [of E C pid ?s] save_about_text_frame [of E C pid "extract_about_text ?s" ?w1]
      expand_details_frame [of w E]
    by (simp add: same_disk_def)
  show ?thesis
  proof (cases "writable E f")
    case True
    let ?w4 = "?w3\<lparr>csv_files := (csv_files ?w3)(f := Some (write_csv (csv_files ?w3 f) data))\<rparr>"
    have "csv_files (snd (pace C (emit (Saved pid) ?w4))) = csv_files (emit (Saved pid) ?w4)"
      using pace_frame by blast
    then have c5: "csv_files (snd (pace C (emit (Saved pid) ?w4)))
        = (csv_files w)(f := Some (write_csv (csv_files w f) data))"
      using c3 by (simp add: emit_def)
    have "persist_item E C f pid url (w, ids, tot)
        = (fst (pace C (emit (Saved pid) ?w4)),
           (snd (pace C (emit (Saved pid) ?w4)), insert (Some pid) ids, tot + 1))"
      using Inr True
      by (simp add: persist_item_def Let_def append_csv_def split: prod.splits)
    then show ?thesis
      using assms Inr True c5 by simp
  next
    case False
    have "persist_item E C f pid url (w, ids, tot) = (Some OSError, (?w3, ids, tot))"
      using Inr False
      by (simp add: persist_item_def Let_def append_csv_def)
    then show ?thesis
      using assms Inr False c3 by auto
  qed
qed

theorem index_follows_csv_append_witness:
  "build_data jeans_id jeans_url
      (BeautifulSoup (static_env (shop jeans_html) [] [jeans_txt])
        (page_source (static_env (shop jeans_html) [] [jeans_txt])
          (driver (expand_details (static_env (shop jeans_html) [] [jeans_txt]) (fresh_world jeans_url)))))
     = Inr jeans_record
   \<and> ids_of (persist_item (static_env (shop jeans_html) [] [jeans_txt]) demo_config jeans_csv
        jeans_id jeans_url (fresh_world jeans_url, {}, 0)) = {Some jeans_id}
   \<and> csv_files (world_of (persist_item (static_env (shop jeans_html) [] [jeans_txt]) demo_config
        jeans_csv jeans_id jeans_url (fresh_world jeans_url, {}, 0))) jeans_csv
       = Some [map fst jeans_record, csv_row jeans_record]"
proof -
  let ?E = "static_env (shop jeans_html) [] [jeans_txt]"
  let ?R = "persist_item ?E demo_config jeans_csv jeans_id jeans_url (fresh_world jeans_url, {}, 0)"
  have bd: "build_data jeans_id jeans_url
      (BeautifulSoup ?E (page_source ?E (driver (expand_details ?E (fresh_world jeans_url)))))
     = Inr jeans_record"
    by code_simp
  have wr: "writable ?E jeans_csv"
    by code_simp
  have eq: "?R = (fst ?R, (world_of ?R, ids_of ?R, total_of ?R))"
    by (simp add: world_of_def ids_of_def total_of_def)
  show ?thesis
    using index_follows_csv_append [OF eq] bd wr
    by (simp add: fresh_world_def write_csv_def)
qed

section \<open>The item identifier\<close>

lemma tracking_suffix_boundary:
  assumes "\<not> startswith (c # cs) ''/ref''"
  shows "\<not> startswith ((c # cs) @ ''/ref'' @ suffix) ''/ref''"
proof (cases cs)
  case Nil
  then show ?thesis by (simp add: startswith_def)
next
  case (Cons c2 cs2)
  note l2 = Cons
  show ?thesis
  proof (cases cs2)
    case Nil
    with l2 show ?thesis by (simp add: startswith_def)
  next
    case (Cons c3 cs3)
    note l3 = Cons
    show ?thesis
    proof (cases cs3)
      case Nil
      with l2 l3 show ?thesis by (simp add: startswith_def)
    next
      case (Cons c4 cs4)
      with l2 l3 assms show ?thesis by (simp add: startswith_def)
    qed
  qed
qed

lemma strip_tracking_suffix:
  "\<not> contains base ''/ref'' \<Longrightarrow> split_head (base @ ''/ref'' @ suffix) ''/ref'' = base"
proof (induction base)
  case Nil
  then show ?case by (simp add: split_head_def startswith_def)
next
  case (Cons c cs)
  then have a: "\<not> startswith (c # cs) ''/ref''" and b: "\<not> contains cs ''/ref''"
    by simp_all
  have "\<not> startswith ((c # cs) @ ''/ref'' @ suffix) ''/ref''"
    using a by (rule tracking_suffix_boundary)
  then show ?case
    using Cons.IH [OF b] by (simp add: split_head_def)
qed

lemma skip_item_frame:
  "skip_item C (w, ids, tot) = (r, (w', ids', tot')) \<Longrightarrow>
     ids' = ids \<and> text_files w' = text_files w \<and> image_files w' = image_files w"
  using pace_frame [of C w] by (auto simp: skip_item_def split: prod.splits)

lemma persist_item_frame:
  assumes "persist_item E C f pid url (w, ids, tot) = (r, (w', ids', tot'))"
  shows "(ids' = ids \<or> ids' = insert (Some pid) ids)
     \<and> (p \<noteq> path_join (TEXT_DIR C) (pid @ ''.txt'') \<longrightarrow> text_files w' p = text_files w p)
     \<and> (q \<noteq> path_join (IMAGES_DIR C) (pid @ ''.jpg'') \<longrightarrow> image_files w' q = image_files w q)"
proof -
  let ?w1 = "expand_details E w"
  let ?s = "BeautifulSoup E (page_source E (driver ?w1))"
  let ?w2 = "save_about_text E C pid (extract_about_text ?s) ?w1"
  let ?w3 = "save_image E C pid ?s ?w2"
  have t3: "p \<noteq> path_join (TEXT_DIR C) (pid @ ''.txt'') \<longrightarrow> text_files ?w3 p = text_files w p"
    using save_image_frame [of E C pid ?s ?w2] save_about_text_frame [of E C pid "extract_about_text ?s" ?w1 p]
      expand_details_frame [of w E]
    by (simp add: same_disk_def)
  have i3: "q \<noteq> path_join (IMAGES_DIR C) (pid @ ''.jpg'') \<longrightarrow> image_files ?w3 q = image_files w q"
    using save_image_frame [of E C pid ?s ?w2 q] save_about_text_frame [of E C pid "extract_about_text ?s" ?w1]
      expand_details_frame [of w E]
    by (simp add: same_disk_def)
  have e1: "text_files ?w1 = text_files w \<and> image_files ?w1 = image_files w"
    using expand_details_frame [of w E] by (simp add: same_disk_def)
  show ?thesis
  proof (cases "build_data pid url ?s")
    case (Inl e)
    then show ?thesis
      using assms e1 by (auto simp: persist_item_def Let_def)
  next
    case (Inr data)
    show ?thesis
    proof (cases "writable E f")
      case False
      then have "persist_item E C f pid url (w, ids, tot) = (Some OSError, (?w3, ids, tot))"
        using Inr by (simp add: persist_item_def Let_def append_csv_def)
      then show ?thesis
        using assms t3 i3 by auto
    next
      case True
      let ?w4 = "?w3\<lparr>csv_files := (csv_files ?w3)(f := Some (write_csv (csv_files ?w3 f) data))\<rparr>"
      let ?w5 = "snd (pace C (emit (Saved pid) ?w4))"
      have "persist_item E C f pid url (w, ids, tot)
          = (fst (pace C (emit (Saved pid) ?w4)), (?w5, insert (Some pid) ids, tot + 1))"
        using Inr True
        by (simp add: persist_item_def Let_def append_csv_def split: prod.splits)
      moreover have "text_files ?w5 = text_files ?w3 \<and> image_files ?w5 = image_files ?w3"
        using pace_frame [of C "emit (Saved pid) ?w4"] by (simp add: emit_def)
      ultimately show ?thesis
        using assms t3 i3 by auto
    qed
  qed
qed

text \<open>
  Where the link has no \<^verbatim>\<open>/ref\<close> before its tracking suffix, the cut removes the suffix
  and nothing else. A visit of a link uses the one identifier of its product URL
  throughout: it is the only identifier the visit can add to the index, the text
  artifact and the image it may write are the files named by it (\<^verbatim>\<open>{id}.txt\<close>,
  \<^verbatim>\<open>{id}.jpg\<close>) and no other file changes, and a link whose identifier is in the index
  already is passed over with nothing done.
\<close>

lemma visit_uses_one_identifier:
  assumes "visit_item E C f (Some href) (w, ids, tot) = (r, (w', ids', tot'))"
  shows "(ids' = ids \<or> ids' = insert (Some (generate_id E (product_url_of E href))) ids)
     \<and> (p \<noteq> path_join (TEXT_DIR C) (generate_id E (product_url_of E href) @ ''.txt'')
          \<longrightarrow> text_files w' p = text_files w p)
     \<and> (q \<noteq> path_join (IMAGES_DIR C) (generate_id E (product_url_of E href) @ ''.jpg'')
          \<longrightarrow> image_files w' q = image_files w q)
     \<and> (Some (generate_id E (product_url_of E href)) \<in> ids \<longrightarrow> r = None \<and> w' = w \<and> ids' = ids)
     \<and> (\<not> contains base ''/ref'' \<longrightarrow>
          product_url_of E (base @ ''/ref'' @ suffix) = urljoin E ''https://www.amazon.com'' base)"
proof -
  let ?url = "product_url_of E href"
  let ?pid = "generate_id E ?url"
  have canon: "\<not> contains base ''/ref'' \<longrightarrow>
      product_url_of E (base @ ''/ref'' @ suffix) = urljoin E ''https://www.amazon.com'' base"
    using strip_tracking_suffix [of base suffix] by (simp add: product_url_of_def)
  have "visit_item E C f (Some href) (w, ids, tot) = (None, (w, ids, tot))" if "Some ?pid \<in> ids"
    using that by (simp add: visit_item_def Let_def)
  then have known: "Some ?pid \<in> ids \<longrightarrow> r = None \<and> w' = w \<and> ids' = ids"
    using assms by auto
  have frame: "(ids' = ids \<or> ids' = insert (Some ?pid) ids)
     \<and> (p \<noteq> path_join (TEXT_DIR C) (?pid @ ''.txt'') \<longrightarrow> text_files w' p = text_files w p)
     \<and> (q \<noteq> path_join (IMAGES_DIR C) (?pid @ ''.jpg'') \<longrightarrow> image_files w' q = image_files w q)"
  proof (cases "truthy (Some href) \<and> contains href ''/dp/'' \<and> Some ?pid \<notin> ids")
    case False
    then have "visit_item E C f (Some href) (w, ids, tot) = (None, (w, ids, tot))"
      by (auto simp: visit_item_def Let_def)
    then show ?thesis using assms by simp
  next
    case True
    obtain r1 w1 where g: "driver_get E ?url w = (r1, w1)"
      by (cases "driver_get E ?url w")
    have s1: "same_disk w w1"
      using same_disk_driver_get [of w E ?url] g by simp
    show ?thesis
    proof (cases r1)
      case (Some e)
      then have "visit_item E C f (Some href) (w, ids, tot) = (Some e, (w1, ids, tot))"
        using True g by (simp add: visit_item_def Let_def)
      then show ?thesis using assms s1 by (auto simp: same_disk_def)
    next
      case None
      let ?w2 = "snd (click_continue_shopping_if_present E w1)"
      obtain ok w3 where h: "handle_sorry_page E (Some ?url) 3 ?w2 = (ok, w3)"
        by (cases "handle_sorry_page E (Some ?url) 3 ?w2")
      have s3: "same_disk w w3"
        using same_disk_trans [OF same_disk_trans [OF s1 same_disk_click [of w1 E]]
            same_disk_handle_sorry_page [of ?w2 E "Some ?url" 3]] h
        by simp
      then have f3: "text_files w3 = text_files w \<and> image_files w3 = image_files w"
        by (simp add: same_disk_def)
      show ?thesis
      proof (cases "ok \<and> title_located E (driver w3)")
        case False
        then have "visit_item E C f (Some href) (w, ids, tot) = skip_item C (w3, ids, tot)"
          using True g None h by (auto simp: visit_item_def Let_def split: bool.splits)
        then show ?thesis
          using assms skip_item_frame [of C w3 ids tot r w' ids' tot'] f3 by simp
      next
        case ok: True
        then have "visit_item E C f (Some href) (w, ids, tot)
            = persist_item E C f ?pid ?url (w3, ids, tot)"
          using True g None h by (auto simp: visit_item_def Let_def split: bool.splits)
        then show ?thesis
          using assms persist_item_frame [of E C f ?pid ?url w3 ids tot r w' ids' tot' p q] f3
          by simp
      qed
    qed
  qed
  show ?thesis
    using canon known frame by blast
qed

lemma ref_slug_cut:
  "product_url_of E (''/ref'' @ rest) = urljoin E ''https://www.amazon.com'' ''''"
  by (simp add: product_url_of_def split_head_def startswith_def)

lemma ref_slugs_share_identifier:
  "generate_id E (product_url_of E (''/ref'' @ rest)) = generate_id E (product_url_of E (''/ref'' @ rest'))"
  by (simp add: product_url_of_def split_head_def startswith_def)

text \<open>
  C8: the crawler canonicalizes an item's link by stripping its tracking suffix, and the
  identifier of the canonical URL is the dedup key and the stem of the item's files. The
  cut is at the first \<^verbatim>\<open>/ref\<close> of the link, wherever it is. For the links
  \<^verbatim>\<open>/refill-pack/dp/B01/ref=sr_1_1\<close> and \<^verbatim>\<open>/reflective-vest/dp/B02/ref=sr_1_2\<close> it is at
  the very start: both links are cut to the empty path, the product URL of both is the
  site's root and both get the root's identifier, not the identifiers of their two
  product URLs. In a run over a listing with these two links the browser loads the
  home page twice and no product page, and nothing is saved; and with the root's
  identifier in the index the second product is passed over as known.
\<close>

theorem slug_with_ref_is_cut_to_site_root:
  "split_head refill_href ''/ref'' = '''' \<and> split_head vest_href ''/ref'' = ''''
   \<and> product_url_of (static_env ref_shop [] []) refill_href = ''https://www.amazon.com''
   \<and> product_url_of (static_env ref_shop [] []) vest_href = ''https://www.amazon.com''
   \<and> generate_id (static_env ref_shop [] []) (product_url_of (static_env ref_shop [] []) refill_href)
       = site_root_id
   \<and> generate_id (static_env ref_shop [] []) (product_url_of (static_env ref_shop [] []) vest_href)
       = site_root_id
   \<and> generate_id (static_env ref_shop [] []) ''https://www.amazon.com/refill-pack/dp/B01''
       = ''19b72101d28a89fc2a79d0c37f953f0b''
   \<and> trace_after (main 5 (static_env ref_shop [] []) demo_config empty_disk [])
       = [Get listing_url, Scroll, Get ''https://www.amazon.com'', Get ''https://www.amazon.com'', Quit]
   \<and> csv_after (main 5 (static_env ref_shop [] []) demo_config empty_disk []) jeans_csv = None
   \<and> fst (visit_item (static_env ref_shop [] []) demo_config jeans_csv (Some vest_href)
        (fresh_world listing_url, {Some site_root_id}, 1)) = None
   \<and> trace (world_of (visit_item (static_env ref_shop [] []) demo_config jeans_csv (Some vest_href)
        (fresh_world listing_url, {Some site_root_id}, 1))) = []"
  by code_simp

section \<open>Exceptions in an item's pipeline\<close>

lemma visit_items_raise:
  "visit_items E C f pre st0 = (None, st) \<Longrightarrow> snd (snd st) < MAX_PER_CATEGORY C \<Longrightarrow>
   visit_item E C f href st = (Some e, st') \<Longrightarrow>
   visit_items E C f (pre @ href # rest) st0 = (Some e, st')"
proof (induction pre arbitrary: st0)
  case Nil
  then show ?case by simp
next
  case (Cons p ps)
  show ?case
  proof (cases "MAX_PER_CATEGORY C \<le> snd (snd st0)")
    case True
    then have "st = st0" using Cons.prems(1) by simp
    then show ?thesis using True Cons.prems(2) by simp
  next
    case False
    obtain r1 st1 where v: "visit_item E C f p st0 = (r1, st1)"
      by (cases "visit_item E C f p st0")
    show ?thesis
    proof (cases r1)
      case (Some e1)
      then show ?thesis using False v Cons.prems(1) by simp
    next
      case None
      then have "visit_items E C f ps st1 = (None, st)"
        using False v Cons.prems(1) by simp
      then have "visit_items E C f (ps @ href # rest) st1 = (Some e, st')"
        using Cons.IH Cons.prems(2,3) by blast
      then show ?thesis using False v None by simp
    qed
  qed
qed

text \<open>
  C5, as the spec states it: an exception in one item's pipeline is caught at the item,
  and the crawl goes on with the next item. The loop over the items has no handler: when
  the load of the first product's page raises, the second product is never visited, and
  the run ends there with nothing written.
\<close>

theorem failed_item_stops_the_crawl:
  "trace_after (main 5 (static_env (shop jeans_html) [jeans_url] []) demo_config empty_disk [])
     = [Get listing_url, Scroll, Get jeans_url, UnhandledException WebDriverException, Quit]
   \<and> csv_after (main 5 (static_env (shop jeans_html) [jeans_url] []) demo_config empty_disk []) jeans_csv
       = None"
  by code_simp

text \<open>
  C5, amended: no handler stands at the item. An exception that leaves one item's visit
  ends the loop over the items with it, the items after it unvisited; an exception that
  leaves the loop over the items ends the loop over the pages and the category's crawl;
  an exception that leaves a category's crawl ends the loop over the categories. The
  handler of \<^verbatim>\<open>main\<close> catches it and logs it, and the driver is quit: the run ends
  normally with what was persisted before. An exception of \<^verbatim>\<open>get_driver\<close> leaves
  \<^verbatim>\<open>main\<close>.
\<close>

theorem unhandled_exception_ends_the_run:
  "(visit_items E C f pre st0 = (None, st) \<and> snd (snd st) < MAX_PER_CATEGORY C \<and>
      visit_item E C f href st = (Some e, st')
      \<longrightarrow> visit_items E C f (pre @ href # rest) st0 = (Some e, st'))
   \<and> (tot < MAX_PER_CATEGORY C \<and>
      s_no_outline (BeautifulSoup E (page_source E (driver (scroll_randomly E w)))) = item # items \<and>
      visit_items E C f (item # items) (scroll_randomly E w, ids, tot) = (Some e, st')
      \<longrightarrow> crawl_pages (Suc fuel) E C f (w, ids, tot) = Some (Some e, st'))
   \<and> (open_listing E C node w = (None, w1) \<and>
      load_scraped_ids (csv_files w1 (csv_path C name)) = Inr ids \<and>
      crawl_pages fuel E C (csv_path C name) (w1, ids, 0) = Some (Some e, st')
      \<longrightarrow> scrape_category fuel E C name node w = Some (Some e, fst st'))
   \<and> (scrape_category fuel E C name node w = Some (Some e, w2)
      \<longrightarrow> run_categories fuel E C ((name, node) # cats) w = Some (Some e, w2))
   \<and> (get_driver E = Inr d \<and>
      run_categories fuel E C (CATEGORIES C) (initial_world d files rs) = Some (Some e, w2)
      \<longrightarrow> main fuel E C files rs = Some (Inr (emit Quit (emit (UnhandledException e) w2))))
   \<and> (get_driver E = Inl e \<longrightarrow> main fuel E C files rs = Some (Inl e))"
proof -
  have a: "visit_items E C f pre st0 = (None, st) \<and> snd (snd st) < MAX_PER_CATEGORY C \<and>
      visit_item E C f href st = (Some e, st')
      \<longrightarrow> visit_items E C f (pre @ href # rest) st0 = (Some e, st')"
    using visit_items_raise by blast
  have b: "tot < MAX_PER_CATEGORY C \<and>
      s_no_outline (BeautifulSoup E (page_source E (driver (scroll_randomly E w)))) = item # items \<and>
      visit_items E C f (item # items) (scroll_randomly E w, ids, tot) = (Some e, st')
      \<longrightarrow> crawl_pages (Suc fuel) E C f (w, ids, tot) = Some (Some e, st')"
    by (simp add: Let_def)
  have c: "open_listing E C node w = (None, w1) \<and>
      load_scraped_ids (csv_files w1 (csv_path C name)) = Inr ids \<and>
      crawl_pages fuel E C (csv_path C name) (w1, ids, 0) = Some (Some e, st')
      \<longrightarrow> scrape_category fuel E C name node w = Some (Some e, fst st')"
    by (simp add: scrape_category_def)
  have d: "scrape_category fuel E C name node w = Some (Some e, w2)
      \<longrightarrow> run_categories fuel E C ((name, node) # cats) w = Some (Some e, w2)"
    by simp
  have m: "get_driver E = Inr d \<and>
      run_categories fuel E C (CATEGORIES C) (initial_world d files rs) = Some (Some e, w2)
      \<longrightarrow> main fuel E C files rs = Some (Inr (emit Quit (emit (UnhandledException e) w2)))"
    by (simp add: main_def)
  have g: "get_driver E = Inl e \<longrightarrow> main fuel E C files rs = Some (Inl e)"
    by (simp add: main_def)
  show ?thesis
    using a b c d m g by blast
qed

theorem unhandled_exception_ends_the_run_witness:
  "main 1 (static_env (shop jeans_html) [jeans_url] []) demo_config empty_disk []
     = Some (Inr (emit Quit (emit (UnhandledException WebDriverException)
         (world_of (visit_item (static_env (shop jeans_html) [jeans_url] []) demo_config jeans_csv
            (Some jeans_href)
            (scroll_randomly (static_env (shop jeans_html) [jeans_url] [])
               (snd (open_listing (static_env (shop jeans_html) [jeans_url] []) demo_config
                  ''1045564'' (initial_world ''data:,'' empty_disk []))), {}, 0))))))
   \<and> main 1 ((static_env (shop jeans_html) [jeans_url] [])\<lparr>get_driver := Inl WebDriverException\<rparr>)
       demo_config empty_disk [] = Some (Inl WebDriverException)"
proof -
  let ?E = "static_env (shop jeans_html) [jeans_url] []"
  let ?W0 = "initial_world ''data:,'' empty_disk [] :: string world"
  let ?w1 = "snd (open_listing ?E demo_config ''1045564'' ?W0)"
  let ?st = "(scroll_randomly ?E ?w1, {}, 0) :: string crawl"
  let ?V = "visit_item ?E demo_config jeans_csv (Some jeans_href) ?st"
  let ?rest = "[Some ''/dp/B02/ref=sr_1_2'']"
  have path: "csv_path demo_config ''jeans'' = jeans_csv"
    by code_simp
  have cap: "(0::int) < MAX_PER_CATEGORY demo_config"
    by (simp add: demo_config_def)
  have cats: "CATEGORIES demo_config = [(''jeans'', ''1045564'')]"
    by (simp add: demo_config_def)
  have drv: "get_driver ?E = Inr ''data:,''"
    by (simp add: static_env_def)
  have "fst (open_listing ?E demo_config ''1045564'' ?W0) = None"
    by code_simp
  then have op: "open_listing ?E demo_config ''1045564'' ?W0 = (None, ?w1)"
    by (metis prod.collapse)
  have seed: "load_scraped_ids (csv_files ?w1 (csv_path demo_config ''jeans'')) = Inr {}"
    by code_simp
  have links: "s_no_outline (BeautifulSoup ?E (page_source ?E (driver (scroll_randomly ?E ?w1))))
      = Some jeans_href # ?rest"
    by code_simp
  have "fst ?V = Some WebDriverException"
    by code_simp
  then have raised: "?V = (Some WebDriverException, snd ?V)"
    by (metis prod.collapse)
  note T0 = unhandled_exception_ends_the_run [where E = ?E and C = demo_config and f = jeans_csv and pre = "[]"
      and ?st0.0 = ?st and st = ?st and href = "Some jeans_href" and e = WebDriverException
      and st' = "snd ?V" and rest = ?rest and tot = 0 and w = ?w1 and item = "Some jeans_href"
      and items = ?rest and ids = "{}" and fuel = 0]
  have loop: "visit_items ?E demo_config jeans_csv (Some jeans_href # ?rest) ?st
      = (Some WebDriverException, snd ?V)"
    using T0 raised cap by simp
  have pages: "crawl_pages 1 ?E demo_config jeans_csv (?w1, {}, 0)
      = Some (Some WebDriverException, snd ?V)"
    using T0 loop links cap by simp
  note T1 = unhandled_exception_ends_the_run [where E = ?E and C = demo_config and e = WebDriverException
      and st' = "snd ?V" and w = ?W0 and ?w1.0 = ?w1 and ids = "{}" and fuel = 1
      and node = "''1045564''" and name = "''jeans''" and cats = "[]"
      and ?w2.0 = "fst (snd ?V)" and d = "''data:,''" and files = empty_disk and rs = "[]"]
  have category: "scrape_category 1 ?E demo_config ''jeans'' ''1045564'' ?W0
      = Some (Some WebDriverException, fst (snd ?V))"
    using T1 op seed pages path by simp
  have run: "run_categories 1 ?E demo_config [(''jeans'', ''1045564'')] ?W0
      = Some (Some WebDriverException, fst (snd ?V))"
    using T1 category by blast
  have caught: "main 1 ?E demo_config empty_disk []
      = Some (Inr (emit Quit (emit (UnhandledException WebDriverException) (fst (snd ?V)))))"
    using T1 run drv cats by simp
  have fatal: "main 1 (?E\<lparr>get_driver := Inl WebDriverException\<rparr>) demo_config empty_disk []
      = Some (Inl WebDriverException)"
    using unhandled_exception_ends_the_run [where E = "?E\<lparr>get_driver := Inl WebDriverException\<rparr>" and e = WebDriverException
        and fuel = 1 and C = demo_config and files = empty_disk and rs = "[]"]
    by simp
  show ?thesis
    using caught fatal by (simp add: world_of_def)
qed

section \<open>Skipped items\<close>

lemma final_check_is_narrower: "final_error_page src \<Longrightarrow> error_page src"
  by (auto simp: final_error_page_def error_page_def)

lemma persistent_error_page_fails:
  assumes "\<forall>d. final_error_page (lower (page_source E d))"
  shows "fst (sorry_loop E url a n w) = False"
proof (induction n arbitrary: a w)
  case 0
  then show ?case using assms by simp
next
  case (Suc n)
  have "error_page (lower (page_source E (driver w)))"
    using assms final_check_is_narrower by blast
  then show ?case using Suc.IH by simp
qed

lemma persistent_error_page_is_reported:
  assumes "\<forall>d. final_error_page (lower (page_source E d))"
  shows "fst (handle_sorry_page E url n w) = False"
  using persistent_error_page_fails [OF assms] by (simp add: handle_sorry_page_def)

lemma skipped_item_persists_nothing:
  assumes "visit_item E C f (Some href) (w, ids, tot) = (r, (w', ids', tot'))"
    and "fst (driver_get E (product_url_of E href) w) = None"
    and "handle_sorry_page E (Some (product_url_of E href)) 3
           (snd (click_continue_shopping_if_present E (snd (driver_get E (product_url_of E href) w))))
         = (ok, w3)"
    and "ok = False \<or> title_located E (driver w3) = False"
  shows "ids' = ids \<and> tot' = tot \<and> csv_files w' = csv_files w \<and> text_files w' = text_files w
     \<and> image_files w' = image_files w"
proof -
  let ?url = "product_url_of E href"
  obtain w1 where g: "driver_get E ?url w = (None, w1)"
    using assms(2) by (cases "driver_get E ?url w") auto
  let ?w2 = "snd (click_continue_shopping_if_present E w1)"
  have h: "handle_sorry_page E (Some ?url) 3 ?w2 = (ok, w3)"
    using assms(3) g by simp
  have "same_disk w w1"
    using same_disk_driver_get [of w E ?url] g by simp
  then have "same_disk w w3"
    using same_disk_trans [OF same_disk_trans [OF _ same_disk_click [of w1 E]]
        same_disk_handle_sorry_page [of ?w2 E "Some ?url" 3]] h
    by simp
  then have f3: "csv_files w3 = csv_files w \<and> text_files w3 = text_files w \<and> image_files w3 = image_files w"
    by (simp add: same_disk_def)
  have "visit_item E C f (Some href) (w, ids, tot) = (None, (w, ids, tot))
      \<or> visit_item E C f (Some href) (w, ids, tot) = skip_item C (w3, ids, tot)"
    using g h assms(4) by (auto simp: visit_item_def Let_def split: bool.splits)
  then show ?thesis
  proof
    assume "visit_item E C f (Some href) (w, ids, tot) = (None, (w, ids, tot))"
    then show ?thesis using assms(1) by simp
  next
    assume "visit_item E C f (Some href) (w, ids, tot) = skip_item C (w3, ids, tot)"
    then have "skip_item C (w3, ids, tot) = (r, (w', ids', tot'))"
      using assms(1) by simp
    then show ?thesis
      using pace_frame [of C w3] f3 by (auto simp: skip_item_def split: prod.splits)
  qed
qed

lemma missing_price_is_null:
  "a_price_whole s = None \<or> a_price_symbol s = None \<Longrightarrow> extract_price s = None"
  by (auto simp: extract_price_def split: option.splits)

lemma placeholders_for_missing_elements:
  "productTitle s = None \<Longrightarrow> extract_title s = ''N/A''"
  "a_icon_alt s = None \<Longrightarrow> extract_rating s = Inr ''N/A''"
  "bylineInfo s = None \<Longrightarrow> extract_brand s = ''N/A''"
  "color_name s = None \<Longrightarrow> extract_color s = ''N/A''"
  by (simp_all add: extract_title_def extract_rating_def extract_brand_def extract_color_def)

text \<open>
  C3: a page that still matches the soft-block signatures after the last recovery cycle
  is reported as failed, and the crawler skips it. The loop takes \<^verbatim>\<open>we're sorry\<close> for
  a signature, the check after the loop does not: a product page that says
  \<^verbatim>\<open>We're sorry, this size is sold out\<close> goes through all three cycles, still matches,
  and is reported as recovered; the crawler appends its row and indexes it.
\<close>

theorem apology_page_passes_recovery:
  "error_page (lower (page_source (static_env (shop apology_html) [] []) jeans_url))
   \<and> fst (handle_sorry_page (static_env (shop apology_html) [] []) (Some jeans_url) 3
        (fresh_world jeans_url)) = True
   \<and> trace (snd (handle_sorry_page (static_env (shop apology_html) [] []) (Some jeans_url) 3
        (fresh_world jeans_url))) = [Refresh, Refresh, ClearStorage, DeleteCookies, Refresh]
   \<and> ids_of (visit_item (static_env (shop apology_html) [] []) demo_config jeans_csv (Some jeans_href)
        (fresh_world listing_url, {}, 0)) = {Some jeans_id}
   \<and> csv_files (world_of (visit_item (static_env (shop apology_html) [] []) demo_config jeans_csv
        (Some jeans_href) (fresh_world listing_url, {}, 0))) jeans_csv
       = Some [[''id'', ''url'', ''title'', ''price'', ''rating'', ''brand'', ''color''],
               [jeans_id, jeans_url, ''Jeans'', [], ''N/A'', ''N/A'', ''N/A'']]"
  by code_simp

text \<open>
  C4: a page with its title and without its price elements yields a record with a null
  price, not a failure. On such a page whose rating element is empty the record is never
  built: the rating extractor raises IndexError, nothing is appended and the run ends.
\<close>

theorem blank_rating_aborts_extraction:
  "productTitle (demo_parse blank_rating_html) = Some ''Jeans''
   \<and> extract_price (demo_parse blank_rating_html) = None
   \<and> build_data jeans_id jeans_url (demo_parse blank_rating_html) = Inl IndexError
   \<and> trace_after (main 5 (static_env (shop blank_rating_html) [] []) demo_config empty_disk [])
       = [Get listing_url, Scroll, Get jeans_url, ExpandDetails, UnhandledException IndexError, Quit]
   \<and> csv_after (main 5 (static_env (shop blank_rating_html) [] []) demo_config empty_disk []) jeans_csv
       = None"
  by code_simp

section \<open>Two runs over the same site\<close>

text \<open>
  What the index does during a crawl: the items a crawl saves have distinct identifiers,
  none of them in the index the crawl started with, and the index grows by exactly
  them. The identifier is also what the row has in its \<open>id\<close> column, unless a product
  detail of the page has that key.
\<close>

lemma persist_item_saves:
  assumes "persist_item E C f pid url (w, ids, tot) = (r, (w', ids', tot'))"
  shows "(saved (trace w') = saved (trace w) \<and> ids' = ids)
     \<or> (saved (trace w') = saved (trace w) @ [pid] \<and> ids' = insert (Some pid) ids)"
proof -
  let ?w1 = "expand_details E w"
  let ?s = "BeautifulSoup E (page_source E (driver ?w1))"
  let ?w3 = "save_image E C pid ?s (save_about_text E C pid (extract_about_text ?s) ?w1)"
  have s1: "saved (trace ?w1) = saved (trace w)"
    using expand_details_frame [of w E] by (simp add: same_disk_def)
  have s3: "saved (trace ?w3) = saved (trace w)"
    using save_image_frame [of E C pid ?s] save_about_text_frame [of E C pid "extract_about_text ?s" ?w1] s1
    by simp
  show ?thesis
  proof (cases "build_data pid url ?s")
    case (Inl e)
    then show ?thesis
      using assms s1 by (auto simp: persist_item_def Let_def)
  next
    case (Inr data)
    show ?thesis
    proof (cases "writable E f")
      case False
      then have "persist_item E C f pid url (w, ids, tot) = (Some OSError, (?w3, ids, tot))"
        using Inr by (simp add: persist_item_def Let_def append_csv_def)
      then show ?thesis
        using assms s3 by auto
    next
      case True
      let ?w4 = "?w3\<lparr>csv_files := (csv_files ?w3)(f := Some (write_csv (csv_files ?w3 f) data))\<rparr>"
      let ?w5 = "snd (pace C (emit (Saved pid) ?w4))"
      have "persist_item E C f pid url (w, ids, tot)
          = (fst (pace C (emit (Saved pid) ?w4)), (?w5, insert (Some pid) ids, tot + 1))"
        using Inr True
        by (simp add: persist_item_def Let_def append_csv_def split: prod.splits)
      moreover have "saved (trace ?w5) = saved (trace w) @ [pid]"
        using pace_frame [of C "emit (Saved pid) ?w4"] s3 by (simp add: emit_def saved_def)
      ultimately show ?thesis
        using assms by auto
    qed
  qed
qed

lemma visit_item_saves:
  assumes "visit_item E C f href (w, ids, tot) = (r, (w', ids', tot'))"
  shows "(saved (trace w') = saved (trace w) \<and> ids' = ids)
     \<or> (\<exists>pid. Some pid \<notin> ids \<and> saved (trace w') = saved (trace w) @ [pid]
           \<and> ids' = insert (Some pid) ids)"
proof -
  let ?url = "product_url_of E (the href)"
  let ?pid = "generate_id E ?url"
  show ?thesis
  proof (cases "truthy href \<and> contains (the href) ''/dp/'' \<and> Some ?pid \<notin> ids")
    case False
    then have "visit_item E C f href (w, ids, tot) = (None, (w, ids, tot))"
      by (auto simp: visit_item_def Let_def)
    then show ?thesis using assms by simp
  next
    case True
    obtain r1 w1 where g: "driver_get E ?url w = (r1, w1)"
      by (cases "driver_get E ?url w")
    have s1: "same_disk w w1"
      using same_disk_driver_get [of w E ?url] g by simp
    show ?thesis
    proof (cases r1)
      case (Some e)
      then have "visit_item E C f href (w, ids, tot) = (Some e, (w1, ids, tot))"
        using True g by (simp add: visit_item_def Let_def)
      then show ?thesis using assms s1 by (auto simp: same_disk_def)
    next
      case None
      let ?w2 = "snd (click_continue_shopping_if_present E w1)"
      obtain ok w3 where h: "handle_sorry_page E (Some ?url) 3 ?w2 = (ok, w3)"
        by (cases "handle_sorry_page E (Some ?url) 3 ?w2")
      have "same_disk w w3"
        using same_disk_trans [OF same_disk_trans [OF s1 same_disk_click [of w1 E]]
            same_disk_handle_sorry_page [of ?w2 E "Some ?url" 3]] h
        by simp
      then have f3: "saved (trace w3) = saved (trace w)"
        by (simp add: same_disk_def)
      show ?thesis
      proof (cases "ok \<and> title_located E (driver w3)")
        case False
        then have "visit_item E C f href (w, ids, tot) = skip_item C (w3, ids, tot)"
          using True g None h by (auto simp: visit_item_def Let_def split: bool.splits)
        then have "skip_item C (w3, ids, tot) = (r, (w', ids', tot'))"
          using assms by simp
        then show ?thesis
          using pace_frame [of C w3] f3 by (auto simp: skip_item_def split: prod.splits)
      next
        case ok: True
        then have "visit_item E C f href (w, ids, tot) = persist_item E C f ?pid ?url (w3, ids, tot)"
          using True g None h by (auto simp: visit_item_def Let_def split: bool.splits)
        then show ?thesis
          using assms persist_item_saves [of E C f ?pid ?url w3 ids tot r w' ids' tot'] f3 True
          by auto
      qed
    qed
  qed
qed

lemma visit_items_saves:
  assumes "visit_items E C f items (w, ids, tot) = (r, (w', ids', tot'))"
  shows "\<exists>new. saved (trace w') = saved (trace w) @ new \<and> distinct new
     \<and> Some ` set new \<inter> ids = {} \<and> ids' = ids \<union> Some ` set new"
  using assms
proof (induction items arbitrary: w ids tot)
  case Nil
  then show ?case by simp
next
  case (Cons href rest)
  show ?case
  proof (cases "MAX_PER_CATEGORY C \<le> tot")
    case True
    then show ?thesis using Cons.prems by simp
  next
    case False
    obtain r1 w1 ids1 tot1 where v: "visit_item E C f href (w, ids, tot) = (r1, (w1, ids1, tot1))"
      by (metis prod.collapse)
    obtain new1 where n1: "saved (trace w1) = saved (trace w) @ new1" "distinct new1"
        "Some ` set new1 \<inter> ids = {}" "ids1 = ids \<union> Some ` set new1"
      using visit_item_saves [OF v] by (auto intro: that [of "[]"] that [of "[pid]" for pid])
    show ?thesis
    proof (cases r1)
      case (Some e)
      then have "(r, (w', ids', tot')) = (Some e, (w1, ids1, tot1))"
        using Cons.prems False v by simp
      then show ?thesis using n1 by auto
    next
      case None
      then have "visit_items E C f rest (w1, ids1, tot1) = (r, (w', ids', tot'))"
        using Cons.prems False v by simp
      then obtain new2 where n2: "saved (trace w') = saved (trace w1) @ new2" "distinct new2"
          "Some ` set new2 \<inter> ids1 = {}" "ids' = ids1 \<union> Some ` set new2"
        using Cons.IH by blast
      have "distinct (new1 @ new2)"
        using n1 n2 by auto
      moreover have "saved (trace w') = saved (trace w) @ new1 @ new2"
        using n1 n2 by simp
      moreover have "Some ` set (new1 @ new2) \<inter> ids = {}"
        using n1 n2 by auto
      moreover have "ids' = ids \<union> Some ` set (new1 @ new2)"
        using n1 n2 by auto
      ultimately show ?thesis by blast
    qed
  qed
qed

lemma crawl_pages_saves:
  assumes "crawl_pages fuel E C f (w, ids, tot) = Some (r, (w', ids', tot'))"
  shows "\<exists>new. saved (trace w') = saved (trace w) @ new \<and> distinct new
     \<and> Some ` set new \<inter> ids = {} \<and> ids' = ids \<union> Some ` set new"
  using assms
proof (induction fuel arbitrary: w ids tot)
  case 0
  then show ?case by (auto split: if_splits)
next
  case (Suc fuel)
  let ?w1 = "scroll_randomly E w"
  let ?items = "s_no_outline (BeautifulSoup E (page_source E (driver ?w1)))"
  have s1: "saved (trace ?w1) = saved (trace w)"
    by (simp add: scroll_randomly_def emit_def saved_def)
  show ?case
  proof (cases "tot < MAX_PER_CATEGORY C")
    case False
    then show ?thesis using Suc.prems by simp
  next
    case True
    show ?thesis
    proof (cases "?items = []")
      case True
      then show ?thesis using Suc.prems \<open>tot < MAX_PER_CATEGORY C\<close> s1 by (simp add: Let_def)
    next
      case False
      obtain r1 w2 ids2 tot2 where v: "visit_items E C f ?items (?w1, ids, tot) = (r1, (w2, ids2, tot2))"
        by (metis prod.collapse)
      obtain new1 where n1: "saved (trace w2) = saved (trace w) @ new1" "distinct new1"
          "Some ` set new1 \<inter> ids = {}" "ids2 = ids \<union> Some ` set new1"
        using visit_items_saves [OF v] s1 by auto
      show ?thesis
      proof (cases "r1 = None \<and> next_button E (driver w2) \<noteq> None")
        case False
        then have "(r, (w', ids', tot')) = (r1, (w2, ids2, tot2))"
          using Suc.prems True \<open>?items \<noteq> []\<close> v by (auto simp: Let_def split: option.splits)
        then show ?thesis using n1 by auto
      next
        case turn: True
        then obtain d where d: "next_button E (driver w2) = Some d" by auto
        let ?w3 = "emit NextPage (w2\<lparr>driver := d\<rparr>)"
        have s3: "saved (trace ?w3) = saved (trace w2)"
          by (simp add: emit_def saved_def)
        have "crawl_pages fuel E C f (?w3, ids2, tot2) = Some (r, (w', ids', tot'))"
          using Suc.prems True \<open>?items \<noteq> []\<close> v turn d by (simp add: Let_def)
        then obtain new2 where n2: "saved (trace w') = saved (trace ?w3) @ new2" "distinct new2"
            "Some ` set new2 \<inter> ids2 = {}" "ids' = ids2 \<union> Some ` set new2"
          using Suc.IH by blast
        have "distinct (new1 @ new2)"
          using n1 n2 by auto
        moreover have "saved (trace w') = saved (trace w) @ new1 @ new2"
          using n1 n2 s3 by simp
        moreover have "Some ` set (new1 @ new2) \<inter> ids = {}"
          using n1 n2 by auto
        moreover have "ids' = ids \<union> Some ` set (new1 @ new2)"
          using n1 n2 by auto
        ultimately show ?thesis by blast
      qed
    qed
  qed
qed

lemma dict_set_other: "k \<noteq> k' \<Longrightarrow> map_of (dict_set k v d) k' = map_of d k'"
  by (induction d) auto

lemma dict_update_other: "k' \<notin> fst ` set e \<Longrightarrow> map_of (dict_update d e) k' = map_of d k'"
  unfolding dict_update_def
  by (induction e arbitrary: d) (auto simp: dict_set_other)

lemma id_cell_is_identifier:
  assumes "''id'' \<notin> fst ` set (extract_product_details s)"
    and "build_data pid url s = Inr data"
  shows "map_of data ''id'' = Some (Some pid)"
proof -
  have "''id'' \<notin> fst ` set (map (\<lambda>kv. (fst kv, Some (snd kv))) (extract_product_details s))"
    using assms(1) by (auto simp: image_iff)
  then show ?thesis
    using assms(2) by (auto simp: build_data_def dict_update_other split: sum.splits)
qed

text \<open>
  C1: a second run appends no row whose identifier is in the file already. The index is
  read from the \<open>id\<close> column, and the product details are merged into the record
  after the identifier was put there: a product-facts row labelled \<^verbatim>\<open>ID\<close> replaces the
  identifier in the row that is written. The second run does not find the product's
  identifier in the file, visits it again and appends the same \<open>id\<close> a second time.
\<close>

theorem second_run_appends_known_identifier: "csv_after (second_run 5 (static_env (shop facts_html) [] []) demo_config) jeans_csv
  = Some [[''id'', ''url'', ''title'', ''price'', ''rating'', ''brand'', ''color''],
     [''A-77'', jeans_url, ''Belt'', [], ''N/A'', ''N/A'', ''N/A''],
     [shirt_id, ''https://www.amazon.com/dp/B02'', ''Shirt'', [], ''N/A'', ''N/A'', ''N/A''],
     [''A-77'', jeans_url, ''Belt'', [], ''N/A'', ''N/A'', ''N/A'']]"
  by code_simp

end
